theory Spec2Isabelle
  imports Main
begin

section \<open>Data model\<close>

text \<open>
  The repository holds four variants of one Express server that forwards \<open>GET\<close> requests
  to \<open>https://api.oddsengine.dev\<close>: \<open>railway-proxy-server.js\<close> and
  \<open>railway-proxy-server-fixed.js\<close> (one handler with an inline cache, differing in the
  text of one message), a variant whose cache is an Express middleware
  (\<open>cacheMiddleware\<close>), and \<open>proxy.js\<close>, which has no cache.

  Strings are byte strings: a JavaScript string is read as its UTF-8 encoding, which is
  what \<open>URLSearchParams\<close> percent-encodes.
\<close>

text \<open>
  JSON values. The handlers build numbers only from status codes and never look inside
  a payload, so integers stand for all numbers.
\<close>

datatype json =
    JNull
  | JBool bool
  | JNum int
  | JStr string
  | JArr "json list"
  | JObj "(string \<times> json) list"

text \<open>What a handler passes to \<open>res.status(...)\<close> (200 when it is not called) and \<open>res.json(...)\<close>.\<close>

record response =
  status :: nat
  body :: json

text \<open>
  A value of \<open>req.query\<close> as Express's query parser leaves it: a string, an array (a
  repeated parameter) or a nested object (bracket syntax).
\<close>

datatype qval =
    QStr string
  | QArr "qval list"
  | QObj "(string \<times> qval) list"

text \<open>
  The parts of the inbound request the handlers read. \<open>query\<close> lists the own properties
  of \<open>req.query\<close> in enumeration order; \<open>x_api_key\<close> is \<open>req.headers['x-api-key']\<close>,
  \<open>None\<close> for \<open>undefined\<close>.
\<close>

record request =
  path :: string
  query :: "(string \<times> qval) list"
  x_api_key :: "string option"
  originalUrl :: string

text \<open>The route \<open>/api/:version/:endpoint\<close> of \<open>proxy.js\<close> adds \<open>req.params\<close>.\<close>

record api_request = request +
  version :: string
  endpoint :: string

record cache_entry =
  data :: json
  timestamp :: int

text \<open>
  What \<open>await fetch(url, ...)\<close> gives: a rejection with a message, or a response with a
  status whose body, once read, is a text or a read failure with a message.
\<close>

datatype fetch_result =
    NetworkError string
  | Response nat "string + string"

text \<open>
  What is fixed for the life of the process: the configured key
  \<open>process.env.ODDSENGINE_API_KEY\<close> (\<open>None\<close> for \<open>undefined\<close>) and the JSON parser
  behind \<open>response.json()\<close> (\<open>Inl\<close> the message of the error it throws).
\<close>

record config =
  API_KEY :: "string option"
  json_parse :: "string \<Rightarrow> string + json"

text \<open>
  The surroundings of one request: the upstream as a function of the URL and of the
  \<open>X-API-Key\<close> header it is sent, and the two readings of \<open>Date.now()\<close>, at the
  freshness test and at \<open>cache.set\<close>.
\<close>

record env =
  fetch :: "string \<Rightarrow> string option \<Rightarrow> fetch_result"
  now_check :: int
  now_store :: int

text \<open>
  The state threaded through the handlers: the module-level \<open>cache\<close> map, and the log of
  the calls the upstream has received (URL and \<open>X-API-Key\<close> header), oldest first.
\<close>

record pstate =
  cache :: "string \<rightharpoonup> cache_entry"
  calls :: "(string \<times> string option) list"

section \<open>Building the upstream URL\<close>

definition ODDSENGINE_BASE_URL :: string where
  "ODDSENGINE_BASE_URL = ''https://api.oddsengine.dev''"

definition CACHE_DURATION :: int where
  "CACHE_DURATION = 60 * 1000"

fun join :: "string \<Rightarrow> string list \<Rightarrow> string" where
  "join sep [] = []"
| "join sep [x] = x"
| "join sep (x # y # ys) = x @ sep @ join sep (y # ys)"

text \<open>
  JavaScript's conversion of a query value to a string, as the \<open>URLSearchParams\<close>
  constructor applies it to each property: an array is its elements joined by commas,
  an object is \<open>[object Object]\<close>.
\<close>

fun to_string :: "qval \<Rightarrow> string" where
  "to_string (QStr s) = s"
| "to_string (QArr vs) = join '','' (map to_string vs)"
| "to_string (QObj kvs) = ''[object Object]''"

definition hex_digit :: "nat \<Rightarrow> char" where
  "hex_digit n = ''0123456789ABCDEF'' ! n"

text \<open>The bytes the \<open>application/x-www-form-urlencoded\<close> serializer leaves as they are.\<close>

definition unreserved :: "char \<Rightarrow> bool" where
  "unreserved c =
     (let n = (of_char c :: nat)
      in (48 \<le> n \<and> n \<le> 57) \<or> (65 \<le> n \<and> n \<le> 90) \<or> (97 \<le> n \<and> n \<le> 122)
         \<or> c = CHR ''*'' \<or> c = CHR ''-'' \<or> c = CHR ''.'' \<or> c = CHR ''_'')"

definition enc_byte :: "char \<Rightarrow> string" where
  "enc_byte c =
     (if unreserved c then [c]
      else if c = CHR '' '' then ''+''
      else [CHR ''%'', hex_digit ((of_char c :: nat) div 16), hex_digit ((of_char c :: nat) mod 16)])"

definition form_encode :: "string \<Rightarrow> string" where
  "form_encode s = concat (map enc_byte s)"

definition enc_pair :: "string \<times> string \<Rightarrow> string" where
  "enc_pair p = form_encode (fst p) @ ''='' @ form_encode (snd p)"

text \<open>\<open>new URLSearchParams(req.query).toString()\<close>.\<close>

definition URLSearchParams_toString :: "(string \<times> qval) list \<Rightarrow> string" where
  "URLSearchParams_toString q =
     join ''&'' (map (\<lambda>kv. enc_pair (fst kv, to_string (snd kv))) q)"

definition upstream_url :: "request \<Rightarrow> string" where
  "upstream_url req =
     (let queryString = URLSearchParams_toString (query req)
      in ODDSENGINE_BASE_URL @ path req @ (if queryString \<noteq> [] then ''?'' @ queryString else []))"

section \<open>Responses\<close>

text \<open>The value of a property of a JSON object, as a reader of the response sees it.\<close>

definition json_field :: "string \<Rightarrow> json \<Rightarrow> json option" where
  "json_field name j = (case j of JObj kvs \<Rightarrow> map_of kvs name | _ \<Rightarrow> None)"

definition ok_json :: "json \<Rightarrow> response" where
  "ok_json d = \<lparr>status = 200, body = d\<rparr>"

datatype variant = Original | Fixed

fun missing_key_message :: "variant \<Rightarrow> string" where
  "missing_key_message Original = ''API key required via X-API-Key header or env var''"
| "missing_key_message Fixed = ''API key required via X-API-Key header or ODDSENGINE_API_KEY env var''"

definition missing_api_key :: "variant \<Rightarrow> response" where
  "missing_api_key v =
     \<lparr>status = 401,
      body = JObj [(''error'', JStr ''missing_api_key''), (''message'', JStr (missing_key_message v))]\<rparr>"

definition api_error :: "nat \<Rightarrow> string \<Rightarrow> response" where
  "api_error st errorText =
     \<lparr>status = st,
      body = JObj [(''error'', JStr ''api_error''), (''message'', JStr errorText),
                   (''status'', JNum (int st))]\<rparr>"

definition proxy_error :: "string \<Rightarrow> response" where
  "proxy_error m =
     \<lparr>status = 500, body = JObj [(''error'', JStr ''proxy_error''), (''message'', JStr m)]\<rparr>"

section \<open>The handler of \<open>railway-proxy-server.js\<close> and \<open>railway-proxy-server-fixed.js\<close>\<close>

text \<open>JavaScript truthiness of a value that is a string or \<open>undefined\<close>.\<close>

definition truthy :: "string option \<Rightarrow> bool" where
  "truthy v = (case v of None \<Rightarrow> False | Some s \<Rightarrow> s \<noteq> [])"

definition js_or :: "string option \<Rightarrow> string option \<Rightarrow> string option" where
  "js_or a b = (if truthy a then a else b)"

text \<open>\<open>response.ok\<close> of node-fetch.\<close>

definition response_ok :: "nat \<Rightarrow> bool" where
  "response_ok st = (200 \<le> st \<and> st < 300)"

text \<open>\<open>cached && now - cached.timestamp < duration\<close>: the entry when the test passes.\<close>

definition fresh_entry :: "int \<Rightarrow> int \<Rightarrow> cache_entry option \<Rightarrow> cache_entry option" where
  "fresh_entry duration now cached =
     (case cached of
        None \<Rightarrow> None
      | Some c \<Rightarrow> if now - timestamp c < duration then Some c else None)"

text \<open>
  The body of the \<open>try\<close> block. \<open>Inl m\<close> is an exception with message \<open>m\<close>, thrown by
  \<open>fetch\<close>, \<open>response.text()\<close> or \<open>response.json()\<close>; the state is the one reached when
  it is thrown.
\<close>

definition v1_try :: "variant \<Rightarrow> config \<Rightarrow> env \<Rightarrow> request \<Rightarrow> pstate \<Rightarrow> (string + response) \<times> pstate" where
  "v1_try v cfg e req s =
     (let url = upstream_url req;
          cacheKey = url
      in case fresh_entry CACHE_DURATION (now_check e) (cache s cacheKey) of
           Some cached \<Rightarrow> (Inr (ok_json (data cached)), s)
         | None \<Rightarrow>
            (let apiKey = js_or (x_api_key req) (API_KEY cfg)
             in if \<not> truthy apiKey then (Inr (missing_api_key v), s)
                else
                  (let s1 = s\<lparr>calls := calls s @ [(url, apiKey)]\<rparr>
                   in case fetch e url apiKey of
                        NetworkError m \<Rightarrow> (Inl m, s1)
                      | Response st txt \<Rightarrow>
                          if \<not> response_ok st then
                            (case txt of
                               Inl m \<Rightarrow> (Inl m, s1)
                             | Inr errorText \<Rightarrow> (Inr (api_error st errorText), s1))
                          else
                            (case txt of
                               Inl m \<Rightarrow> (Inl m, s1)
                             | Inr t \<Rightarrow>
                                 (case json_parse cfg t of
                                    Inl m \<Rightarrow> (Inl m, s1)
                                  | Inr d \<Rightarrow>
                                      (Inr (ok_json d),
                                       s1\<lparr>cache := (cache s1)(cacheKey \<mapsto>
                                             \<lparr>data = d, timestamp = now_store e\<rparr>)\<rparr>))))))"

text \<open>The handler: the \<open>try\<close> block and its \<open>catch\<close>.\<close>

definition get_v1 :: "variant \<Rightarrow> config \<Rightarrow> env \<Rightarrow> request \<Rightarrow> pstate \<Rightarrow> response \<times> pstate" where
  "get_v1 v cfg e req s =
     (case v1_try v cfg e req s of
        (Inl m, s') \<Rightarrow> (proxy_error m, s')
      | (Inr r, s') \<Rightarrow> (r, s'))"


section \<open>The variant with \<open>cacheMiddleware\<close>\<close>

text \<open>
  The route handler of this variant: no cache of its own, no credential from the
  request, \<open>API_KEY\<close> passed to \<open>fetch\<close> as it is (possibly \<open>undefined\<close>).
\<close>

definition mw_try :: "config \<Rightarrow> env \<Rightarrow> request \<Rightarrow> pstate \<Rightarrow> (string + response) \<times> pstate" where
  "mw_try cfg e req s =
     (let url = upstream_url req;
          s1 = s\<lparr>calls := calls s @ [(url, API_KEY cfg)]\<rparr>
      in case fetch e url (API_KEY cfg) of
           NetworkError m \<Rightarrow> (Inl m, s1)
         | Response st txt \<Rightarrow>
             if \<not> response_ok st then
               (case txt of
                  Inl m \<Rightarrow> (Inl m, s1)
                | Inr errorText \<Rightarrow> (Inr (api_error st errorText), s1))
             else
               (case txt of
                  Inl m \<Rightarrow> (Inl m, s1)
                | Inr t \<Rightarrow>
                    (case json_parse cfg t of
                       Inl m \<Rightarrow> (Inl m, s1)
                     | Inr d \<Rightarrow> (Inr (ok_json d), s1))))"

definition mw_route :: "config \<Rightarrow> env \<Rightarrow> request \<Rightarrow> pstate \<Rightarrow> response \<times> pstate" where
  "mw_route cfg e req s =
     (case mw_try cfg e req s of
        (Inl m, s') \<Rightarrow> (proxy_error m, s')
      | (Inr r, s') \<Rightarrow> (r, s'))"

text \<open>
  \<open>cacheMiddleware(duration)\<close> in front of a route handler \<open>next\<close>. On a fresh entry it
  answers itself. Otherwise it replaces \<open>res.json\<close> by a function that stores the body
  under the key before sending it, and every path of the route handler ends in one call
  of \<open>res.json\<close>: the body of whatever response the handler produces is stored.
\<close>

definition cacheMiddleware ::
  "int \<Rightarrow> (env \<Rightarrow> request \<Rightarrow> pstate \<Rightarrow> response \<times> pstate) \<Rightarrow> env \<Rightarrow> request \<Rightarrow> pstate \<Rightarrow> response \<times> pstate" where
  "cacheMiddleware duration next e req s =
     (let key = originalUrl req
      in case fresh_entry duration (now_check e) (cache s key) of
           Some cachedResponse \<Rightarrow> (ok_json (data cachedResponse), s)
         | None \<Rightarrow>
             (case next e req s of
                (r, s') \<Rightarrow>
                  (r, s'\<lparr>cache := (cache s')(key \<mapsto> \<lparr>data = body r, timestamp = now_store e\<rparr>)\<rparr>)))"

definition get_v1_mw :: "config \<Rightarrow> env \<Rightarrow> request \<Rightarrow> pstate \<Rightarrow> response \<times> pstate" where
  "get_v1_mw cfg = cacheMiddleware CACHE_DURATION (mw_route cfg)"


section \<open>\<open>proxy.js\<close>\<close>

text \<open>Decimal digits of a status code, for the template string of the error message.\<close>

function show_nat :: "nat \<Rightarrow> string" where
  "show_nat n =
     (if n < 10 then [char_of (48 + n)]
      else show_nat (n div 10) @ [char_of (48 + n mod 10)])"
  by pat_completeness auto
termination
  by (relation "measure id") auto

definition api_url :: "api_request \<Rightarrow> string" where
  "api_url req =
     (let queryString = URLSearchParams_toString (query req)
      in ''https://api.oddsengine.dev/'' @ version req @ ''/'' @ endpoint req
         @ (if queryString \<noteq> [] then ''?'' @ queryString else []))"

text \<open>
  The \<open>try\<close> block of \<open>proxy.js\<close>. Its success path logs \<open>Object.keys(data)\<close>, which
  throws when the parsed body is \<open>null\<close>.
\<close>

definition api_try :: "config \<Rightarrow> env \<Rightarrow> api_request \<Rightarrow> pstate \<Rightarrow> (string + response) \<times> pstate" where
  "api_try cfg e req s =
     (let apiKey = x_api_key req
      in if \<not> truthy apiKey then
           (Inr \<lparr>status = 401, body = JObj [(''error'', JStr ''X-API-Key header required'')]\<rparr>, s)
         else
           (let url = api_url req;
                s1 = s\<lparr>calls := calls s @ [(url, apiKey)]\<rparr>
            in case fetch e url apiKey of
                 NetworkError m \<Rightarrow> (Inl m, s1)
               | Response st txt \<Rightarrow>
                   if \<not> response_ok st then
                     (case txt of
                        Inl m \<Rightarrow> (Inl m, s1)
                      | Inr errorText \<Rightarrow>
                          (Inr \<lparr>status = st,
                                body = JObj [(''error'', JStr (''OddsEngine API returned '' @ show_nat st)),
                                             (''details'', JStr errorText)]\<rparr>, s1))
                   else
                     (case txt of
                        Inl m \<Rightarrow> (Inl m, s1)
                      | Inr t \<Rightarrow>
                          (case json_parse cfg t of
                             Inl m \<Rightarrow> (Inl m, s1)
                           | Inr d \<Rightarrow>
                               if d = JNull then
                                 (Inl ''Cannot convert undefined or null to object'', s1)
                               else (Inr (ok_json d), s1)))))"

definition get_api :: "config \<Rightarrow> env \<Rightarrow> api_request \<Rightarrow> pstate \<Rightarrow> response \<times> pstate" where
  "get_api cfg e req s =
     (case api_try cfg e req s of
        (Inl m, s') \<Rightarrow>
          (\<lparr>status = 500,
            body = JObj [(''error'', JStr ''Proxy server error''), (''message'', JStr m)]\<rparr>, s')
      | (Inr r, s') \<Rightarrow> (r, s'))"

section \<open>Sample requests, stores and upstream stubs\<close>

text \<open>\<open>GET /v1/events?league=NBA\<close> without an \<open>X-API-Key\<close> header.\<close>

definition sample_request :: request where
  "sample_request =
     \<lparr>path = ''/v1/events'', query = [(''league'', QStr ''NBA'')], x_api_key = None,
      originalUrl = ''/v1/events?league=NBA''\<rparr>"

definition sample_url :: string where
  "sample_url = ''https://api.oddsengine.dev/v1/events?league=NBA''"

definition sample_payload :: json where
  "sample_payload = JObj [(''events'', JArr [])]"

definition sample_parse :: "string \<Rightarrow> string + json" where
  \<open>sample_parse t = (if t = ''{"events":[]}'' then Inr sample_payload else Inl ''Unexpected token'')\<close>

definition no_key :: config where
  "no_key = \<lparr>API_KEY = None, json_parse = sample_parse\<rparr>"

definition with_key :: config where
  "with_key = \<lparr>API_KEY = Some ''env-key'', json_parse = sample_parse\<rparr>"

definition cold_state :: pstate where
  "cold_state = \<lparr>cache = Map.empty, calls = []\<rparr>"

text \<open>A store holding one entry for the sample URL, written at time 1000.\<close>

definition warm_state :: pstate where
  "warm_state =
     \<lparr>cache = [sample_url \<mapsto> \<lparr>data = sample_payload, timestamp = 1000\<rparr>], calls = []\<rparr>"

definition stub_ok :: "string \<Rightarrow> string option \<Rightarrow> fetch_result" where
  \<open>stub_ok url k = Response 200 (Inr ''{"events":[]}'')\<close>

definition stub_429 :: "string \<Rightarrow> string option \<Rightarrow> fetch_result" where
  \<open>stub_429 url k = Response 429 (Inr ''{"retry_after":5}'')\<close>

definition stub_read_failure :: "string \<Rightarrow> string option \<Rightarrow> fetch_result" where
  "stub_read_failure url k = Response 503 (Inl ''Premature close'')"

definition stub_down :: "string \<Rightarrow> string option \<Rightarrow> fetch_result" where
  "stub_down url k = NetworkError ''connect ECONNREFUSED''"

definition stub_html :: "string \<Rightarrow> string option \<Rightarrow> fetch_result" where
  "stub_html url k = Response 200 (Inr ''<html>'')"

definition at_time :: "(string \<Rightarrow> string option \<Rightarrow> fetch_result) \<Rightarrow> int \<Rightarrow> env" where
  "at_time f t = \<lparr>fetch = f, now_check = t, now_store = t + 5\<rparr>"

text \<open>The state once the upstream has been called for a request.\<close>

definition called :: "pstate \<Rightarrow> request \<Rightarrow> config \<Rightarrow> pstate" where
  "called s req cfg = s\<lparr>calls := calls s @ [(upstream_url req, js_or (x_api_key req) (API_KEY cfg))]\<rparr>"

text \<open>
  The error envelope: an object with a string \<open>error\<close> among the three kinds and a string
  \<open>message\<close>.
\<close>

definition is_envelope :: "response \<Rightarrow> bool" where
  "is_envelope r =
     (case (json_field ''error'' (body r), json_field ''message'' (body r)) of
        (Some (JStr kind), Some (JStr m)) \<Rightarrow>
           kind \<in> set [''missing_api_key'', ''api_error'', ''proxy_error'']
      | _ \<Rightarrow> False)"

text \<open>\<open>GET /api/v1/events?league=nfl\<close> with a key in the header, for \<open>proxy.js\<close>.\<close>

definition sample_api_request :: api_request where
  "sample_api_request =
     \<lparr>path = ''/api/v1/events'', query = [(''league'', QStr ''nfl'')], x_api_key = Some ''secret'',
      originalUrl = ''/api/v1/events?league=nfl'', version = ''v1'', endpoint = ''events''\<rparr>"

text \<open>The characters that delimit the parts of the URL.\<close>

definition separator :: "char \<Rightarrow> bool" where
  "separator c = (c = CHR ''='' \<or> c = CHR ''&'' \<or> c = CHR ''?'')"

text \<open>A query whose values are all plain strings: no repeated parameter, no bracket syntax.\<close>

fun is_QStr :: "qval \<Rightarrow> bool" where
  "is_QStr (QStr s) = True"
| "is_QStr (QArr vs) = False"
| "is_QStr (QObj kvs) = False"

definition plain_query :: "(string \<times> qval) list \<Rightarrow> bool" where
  "plain_query q = list_all (\<lambda>kv. is_QStr (snd kv)) q"

text \<open>
  \<open>GET /v1/odds?book=a&book=b\<close>, whose repeated parameter the query parser turns into an
  array, and \<open>GET /v1/odds?book=a%2Cb\<close>, whose one parameter holds a comma.
\<close>

definition repeated_request :: request where
  "repeated_request =
     \<lparr>path = ''/v1/odds'', query = [(''book'', QArr [QStr ''a'', QStr ''b''])], x_api_key = None,
      originalUrl = ''/v1/odds?book=a&book=b''\<rparr>"

definition comma_request :: request where
  "comma_request =
     \<lparr>path = ''/v1/odds'', query = [(''book'', QStr ''a,b'')], x_api_key = None,
      originalUrl = ''/v1/odds?book=a%2Cb''\<rparr>"

section \<open>Promises that may never settle\<close>

text \<open>
  \<open>get_v1\<close> above is the handler when every promise it awaits settles. No timeout is set
  on \<open>fetch\<close> in any variant, so a promise can stay pending for ever: then the \<open>async\<close>
  handler never resumes and calls neither \<open>res.json\<close> nor its \<open>catch\<close>.
\<close>

datatype 'a promise = Pending | Settled 'a

text \<open>
  What the promise of \<open>fetch\<close> settles to: a rejection with a message, or a response with
  a status, whose body read (\<open>response.text()\<close>, \<open>response.json()\<close>) is a promise again.
\<close>

datatype upstream_reply =
    Rejects string
  | Responds nat "(string + string) promise"

record awaited_env =
  fetch_p :: "string \<Rightarrow> string option \<Rightarrow> upstream_reply promise"
  now_check_p :: int
  now_store_p :: int

text \<open>
  The \<open>try\<close> block once more, step for step as in \<open>v1_try\<close>, with \<open>None\<close> where the handler
  is left waiting.
\<close>

definition v1_await ::
  "variant \<Rightarrow> config \<Rightarrow> awaited_env \<Rightarrow> request \<Rightarrow> pstate \<Rightarrow> (string + response) option \<times> pstate" where
  "v1_await v cfg w req s =
     (let url = upstream_url req;
          cacheKey = url
      in case fresh_entry CACHE_DURATION (now_check_p w) (cache s cacheKey) of
           Some cached \<Rightarrow> (Some (Inr (ok_json (data cached))), s)
         | None \<Rightarrow>
            (let apiKey = js_or (x_api_key req) (API_KEY cfg)
             in if \<not> truthy apiKey then (Some (Inr (missing_api_key v)), s)
                else
                  (let s1 = s\<lparr>calls := calls s @ [(url, apiKey)]\<rparr>
                   in case fetch_p w url apiKey of
                        Pending \<Rightarrow> (None, s1)
                      | Settled (Rejects m) \<Rightarrow> (Some (Inl m), s1)
                      | Settled (Responds st rd) \<Rightarrow>
                          if \<not> response_ok st then
                            (case rd of
                               Pending \<Rightarrow> (None, s1)
                             | Settled (Inl m) \<Rightarrow> (Some (Inl m), s1)
                             | Settled (Inr errorText) \<Rightarrow>
                                 (Some (Inr (api_error st errorText)), s1))
                          else
                            (case rd of
                               Pending \<Rightarrow> (None, s1)
                             | Settled (Inl m) \<Rightarrow> (Some (Inl m), s1)
                             | Settled (Inr t) \<Rightarrow>
                                 (case json_parse cfg t of
                                    Inl m \<Rightarrow> (Some (Inl m), s1)
                                  | Inr d \<Rightarrow>
                                      (Some (Inr (ok_json d)),
                                       s1\<lparr>cache := (cache s1)(cacheKey \<mapsto>
                                             \<lparr>data = d, timestamp = now_store_p w\<rparr>)\<rparr>))))))"

text \<open>The handler: \<open>None\<close> when the inbound request is never answered.\<close>

definition serve_v1 ::
  "variant \<Rightarrow> config \<Rightarrow> awaited_env \<Rightarrow> request \<Rightarrow> pstate \<Rightarrow> response option \<times> pstate" where
  "serve_v1 v cfg w req s =
     (case v1_await v cfg w req s of
        (None, s') \<Rightarrow> (None, s')
      | (Some (Inl m), s') \<Rightarrow> (Some (proxy_error m), s')
      | (Some (Inr r), s') \<Rightarrow> (Some r, s'))"

text \<open>An upstream all of whose promises settle, as an \<open>env\<close> describes it.\<close>

fun settled :: "fetch_result \<Rightarrow> upstream_reply promise" where
  "settled (NetworkError m) = Settled (Rejects m)"
| "settled (Response st b) = Settled (Responds st (Settled b))"

definition settled_env :: "env \<Rightarrow> awaited_env" where
  "settled_env e =
     \<lparr>fetch_p = (\<lambda>url k. settled (fetch e url k)), now_check_p = now_check e,
      now_store_p = now_store e\<rparr>"

text \<open>
  An upstream that accepts the call and never answers, and one whose 200 response breaks
  off while the body is read.
\<close>

definition hung_upstream :: awaited_env where
  "hung_upstream = \<lparr>fetch_p = (\<lambda>url k. Pending), now_check_p = 1000, now_store_p = 1005\<rparr>"

definition stub_truncated :: "string \<Rightarrow> string option \<Rightarrow> fetch_result" where
  "stub_truncated url k = Response 200 (Inl ''Premature close'')"

section \<open>Evaluating the samples\<close>

lemmas handler_defs = get_v1_def v1_try_def fresh_entry_def js_or_def truthy_def response_ok_def
  CACHE_DURATION_def

lemmas sample_defs = sample_payload_def sample_parse_def no_key_def with_key_def cold_state_def
  warm_state_def stub_ok_def stub_429_def stub_read_failure_def stub_down_def stub_html_def

lemma sample_url_eq: "upstream_url sample_request = sample_url"
  by (simp add: upstream_url_def sample_request_def sample_url_def URLSearchParams_toString_def
      enc_pair_def form_encode_def enc_byte_def unreserved_def ODDSENGINE_BASE_URL_def)

lemma upstream_url_header [simp]: "upstream_url (req\<lparr>x_api_key := h\<rparr>) = upstream_url req"
  by (simp add: upstream_url_def)

lemma x_api_key_sample [simp]: "x_api_key sample_request = None"
  by (simp add: sample_request_def)

lemma at_time_simps [simp]:
  "fetch (at_time f t) = f" "now_check (at_time f t) = t" "now_store (at_time f t) = t + 5"
  by (simp_all add: at_time_def)

lemma run_warm:
  "get_v1 v no_key (at_time f 2000) sample_request warm_state
     = (\<lparr>status = 200, body = sample_payload\<rparr>, warm_state)"
  by (simp add: handler_defs sample_defs sample_url_eq ok_json_def)

lemma run_cold_ok:
  "get_v1 v with_key (at_time stub_ok 1000) sample_request cold_state
     = (\<lparr>status = 200, body = sample_payload\<rparr>,
        \<lparr>cache = [sample_url \<mapsto> \<lparr>data = sample_payload, timestamp = 1005\<rparr>],
         calls = [(sample_url, Some ''env-key'')]\<rparr>)"
  by (simp add: handler_defs sample_defs sample_url_eq ok_json_def)

section \<open>Cache hits\<close>

lemma get_v1_hit:
  "cache s (upstream_url req) = Some c \<Longrightarrow> now_check e - timestamp c < CACHE_DURATION \<Longrightarrow>
   get_v1 v cfg e req s = (ok_json (data c), s)"
  by (simp add: get_v1_def v1_try_def fresh_entry_def)

text \<open>
  C10. With an entry in the store under the request's URL that was written less than
  60000 ms before the freshness test, the response does not depend on the
  \<open>X-API-Key\<close> header of the request, nor on the configured key: any two choices of
  them give the same result, and with no header and no configured key the result is
  still 200 with the stored payload and an unchanged state. The credential check is
  not reached.
\<close>

theorem fresh_hit_ignores_credentials:
  "cache s (upstream_url req) = Some c \<and> now_check e - timestamp c < 60000 \<longrightarrow>
     get_v1 v (cfg\<lparr>API_KEY := k\<rparr>) e (req\<lparr>x_api_key := h\<rparr>) s
       = get_v1 v (cfg\<lparr>API_KEY := k'\<rparr>) e (req\<lparr>x_api_key := h'\<rparr>) s
     \<and> get_v1 v (cfg\<lparr>API_KEY := None\<rparr>) e (req\<lparr>x_api_key := None\<rparr>) s
       = (\<lparr>status = 200, body = data c\<rparr>, s)"
proof
  assume a: "cache s (upstream_url req) = Some c \<and> now_check e - timestamp c < 60000"
  have "get_v1 v cfg' e (req\<lparr>x_api_key := x\<rparr>) s = (\<lparr>status = 200, body = data c\<rparr>, s)" for cfg' x
    using a get_v1_hit [of s "req\<lparr>x_api_key := x\<rparr>" c e v cfg']
    by (simp add: CACHE_DURATION_def ok_json_def)
  then show "get_v1 v (cfg\<lparr>API_KEY := k\<rparr>) e (req\<lparr>x_api_key := h\<rparr>) s
       = get_v1 v (cfg\<lparr>API_KEY := k'\<rparr>) e (req\<lparr>x_api_key := h'\<rparr>) s
     \<and> get_v1 v (cfg\<lparr>API_KEY := None\<rparr>) e (req\<lparr>x_api_key := None\<rparr>) s
       = (\<lparr>status = 200, body = data c\<rparr>, s)"
    by simp
qed

theorem fresh_hit_ignores_credentials_witness:
  "get_v1 Fixed (with_key\<lparr>API_KEY := Some ''k1''\<rparr>) (at_time stub_ok 2000)
       (sample_request\<lparr>x_api_key := Some ''secret''\<rparr>) warm_state
     = get_v1 Fixed (with_key\<lparr>API_KEY := None\<rparr>) (at_time stub_ok 2000)
         (sample_request\<lparr>x_api_key := None\<rparr>) warm_state
   \<and> get_v1 Fixed (with_key\<lparr>API_KEY := None\<rparr>) (at_time stub_ok 2000)
         (sample_request\<lparr>x_api_key := None\<rparr>) warm_state
     = (\<lparr>status = 200, body = sample_payload\<rparr>, warm_state)"
  using fresh_hit_ignores_credentials [where s = warm_state and req = sample_request
      and c = "\<lparr>data = sample_payload, timestamp = 1000\<rparr>" and e = "at_time stub_ok 2000"
      and v = Fixed and cfg = with_key and k = "Some ''k1''" and h = "Some ''secret''"
      and k' = None and h' = None]
  by (simp add: warm_state_def sample_url_eq)

lemma config_simps [simp]:
  "API_KEY no_key = None" "API_KEY with_key = Some ''env-key''"
  "json_parse no_key = sample_parse" "json_parse with_key = sample_parse"
  by (simp_all add: no_key_def with_key_def)

lemma state_simps [simp]:
  "cache cold_state = Map.empty" "calls cold_state = []" "calls warm_state = []"
  "cache warm_state = [sample_url \<mapsto> \<lparr>data = sample_payload, timestamp = 1000\<rparr>]"
  by (simp_all add: cold_state_def warm_state_def)

lemma fresh_entry_None_iff:
  "fresh_entry d now x = None \<longleftrightarrow> (\<forall>c. x = Some c \<longrightarrow> d \<le> now - timestamp c)"
  by (auto simp: fresh_entry_def split: option.splits)

lemma fresh_entry_Some_iff:
  "fresh_entry d now x = Some c \<longleftrightarrow> x = Some c \<and> now - timestamp c < d"
  by (auto simp: fresh_entry_def split: option.splits)

section \<open>Cache misses\<close>

text \<open>What the handler does when the store holds no fresh entry for the key.\<close>

lemma get_v1_miss:
  assumes "fresh_entry CACHE_DURATION (now_check e) (cache s (upstream_url req)) = None"
  shows "get_v1 v cfg e req s =
    (if \<not> truthy (js_or (x_api_key req) (API_KEY cfg)) then (missing_api_key v, s)
     else case fetch e (upstream_url req) (js_or (x_api_key req) (API_KEY cfg)) of
        NetworkError m \<Rightarrow> (proxy_error m, called s req cfg)
      | Response st (Inl m) \<Rightarrow> (proxy_error m, called s req cfg)
      | Response st (Inr t) \<Rightarrow>
          if \<not> response_ok st then (api_error st t, called s req cfg)
          else (case json_parse cfg t of
                  Inl m \<Rightarrow> (proxy_error m, called s req cfg)
                | Inr d \<Rightarrow> (ok_json d,
                    (called s req cfg)\<lparr>cache := (cache s)(upstream_url req \<mapsto>
                        \<lparr>data = d, timestamp = now_store e\<rparr>)\<rparr>)))"
  using assms
  by (simp add: get_v1_def v1_try_def Let_def called_def split: fetch_result.splits sum.splits)

lemma get_v1_miss_no_key:
  assumes "\<forall>c. cache s (upstream_url req) = Some c \<longrightarrow> CACHE_DURATION \<le> now_check e - timestamp c"
    and "\<not> truthy (js_or (x_api_key req) (API_KEY cfg))"
  shows "get_v1 v cfg e req s = (missing_api_key v, s)"
  using assms by (simp add: get_v1_miss fresh_entry_None_iff)

lemma get_v1_calls_no_key:
  assumes "\<not> truthy (js_or (x_api_key req) (API_KEY cfg))"
  shows "calls (snd (get_v1 v cfg e req s)) = calls s"
proof (cases "fresh_entry CACHE_DURATION (now_check e) (cache s (upstream_url req))")
  case None
  then show ?thesis using assms by (simp add: get_v1_miss)
next
  case (Some c)
  then show ?thesis by (simp add: fresh_entry_Some_iff get_v1_hit)
qed

lemma calls_called [simp]:
  "calls (called s req cfg) = calls s @ [(upstream_url req, js_or (x_api_key req) (API_KEY cfg))]"
  "cache (called s req cfg) = cache s"
  by (simp_all add: called_def)

lemma get_v1_calls_miss:
  assumes "\<forall>c. cache s (upstream_url req) = Some c \<longrightarrow> 60000 \<le> now_check e - timestamp c"
    and "truthy (js_or (x_api_key req) (API_KEY cfg))"
  shows "calls (snd (get_v1 v cfg e req s))
           = calls s @ [(upstream_url req, js_or (x_api_key req) (API_KEY cfg))]"
proof -
  have "fresh_entry CACHE_DURATION (now_check e) (cache s (upstream_url req)) = None"
    using assms(1) by (simp add: fresh_entry_None_iff CACHE_DURATION_def)
  then show ?thesis
    using assms(2) by (simp add: get_v1_miss split: fetch_result.splits sum.splits)
qed

lemma get_api_calls:
  "calls (snd (get_api cfg e r s))
     = (if truthy (x_api_key r) then calls s @ [(api_url r, x_api_key r)] else calls s)"
  by (simp add: get_api_def api_try_def Let_def split: fetch_result.splits sum.splits)

lemma get_api_no_header:
  "\<not> truthy (x_api_key r) \<Longrightarrow>
   get_api cfg e r s
     = (\<lparr>status = 401, body = JObj [(''error'', JStr ''X-API-Key header required'')]\<rparr>, s)"
  by (simp add: get_api_def api_try_def)

lemma api_url_sample: "api_url sample_api_request = ''https://api.oddsengine.dev/v1/events?league=nfl''"
  by (simp add: api_url_def sample_api_request_def URLSearchParams_toString_def
      enc_pair_def form_encode_def enc_byte_def unreserved_def)

lemma api_error_fields:
  "status (api_error st t) = st"
  "json_field ''error'' (body (api_error st t)) = Some (JStr ''api_error'')"
  "json_field ''message'' (body (api_error st t)) = Some (JStr t)"
  "json_field ''status'' (body (api_error st t)) = Some (JNum (int st))"
  by (simp_all add: api_error_def json_field_def)

lemma proxy_error_fields:
  "status (proxy_error m) = 500"
  "json_field ''error'' (body (proxy_error m)) = Some (JStr ''proxy_error'')"
  "json_field ''message'' (body (proxy_error m)) = Some (JStr m)"
  by (simp_all add: proxy_error_def json_field_def)

lemma missing_api_key_fields:
  "status (missing_api_key v) = 401"
  "json_field ''error'' (body (missing_api_key v)) = Some (JStr ''missing_api_key'')"
  "json_field ''message'' (body (missing_api_key v)) = Some (JStr (missing_key_message v))"
  by (simp_all add: missing_api_key_def json_field_def)

section \<open>Credentials\<close>

text \<open>
  C2, as the code has it. A request without an \<open>X-API-Key\<close> header, with no key
  configured, never reaches the upstream; and when the store holds no entry for its key
  that is less than 60000 ms old, the answer is 401 with \<open>error: missing_api_key\<close> and
  the state is unchanged. With a fresh entry the answer is the cached payload.
\<close>

theorem no_credentials_unauthorized:
  "x_api_key req = None \<and> API_KEY cfg = None \<longrightarrow>
     calls (snd (get_v1 v cfg e req s)) = calls s
     \<and> ((\<forall>c. cache s (upstream_url req) = Some c \<longrightarrow> 60000 \<le> now_check e - timestamp c) \<longrightarrow>
          get_v1 v cfg e req s = (missing_api_key v, s)
          \<and> status (missing_api_key v) = 401
          \<and> json_field ''error'' (body (missing_api_key v)) = Some (JStr ''missing_api_key''))"
proof (intro impI conjI)
  assume a: "x_api_key req = None \<and> API_KEY cfg = None"
  then have nk: "\<not> truthy (js_or (x_api_key req) (API_KEY cfg))"
    by (simp add: js_or_def truthy_def)
  show "calls (snd (get_v1 v cfg e req s)) = calls s"
    using nk by (rule get_v1_calls_no_key)
  show "status (missing_api_key v) = 401"
    by (simp add: missing_api_key_def)
  show "json_field ''error'' (body (missing_api_key v)) = Some (JStr ''missing_api_key'')"
    by (simp add: missing_api_key_def json_field_def)
  assume "\<forall>c. cache s (upstream_url req) = Some c \<longrightarrow> 60000 \<le> now_check e - timestamp c"
  then show "get_v1 v cfg e req s = (missing_api_key v, s)"
    using nk get_v1_miss_no_key [of s req e cfg v] by (simp add: CACHE_DURATION_def)
qed

theorem no_credentials_unauthorized_witness:
  "calls (snd (get_v1 Original no_key (at_time stub_ok 1000) sample_request cold_state)) = []
   \<and> get_v1 Original no_key (at_time stub_ok 1000) sample_request cold_state
      = (\<lparr>status = 401,
          body = JObj [(''error'', JStr ''missing_api_key''),
                       (''message'', JStr ''API key required via X-API-Key header or env var'')]\<rparr>,
         cold_state)"
  using no_credentials_unauthorized [where req = sample_request and cfg = no_key and v = Original
      and e = "at_time stub_ok 1000" and s = cold_state]
  by (simp add: missing_api_key_def)

text \<open>
  C2 as stated fails: the freshness test comes before the credential check, so a request
  with no header and no configured key is answered 200 from an entry that an earlier
  request, which carried a key, left in the store.
\<close>

theorem keyless_request_served_from_cache:
  "x_api_key sample_request = None \<and> API_KEY no_key = None
   \<and> get_v1 Original no_key (at_time stub_ok 2000) sample_request warm_state
       = (\<lparr>status = 200, body = sample_payload\<rparr>, warm_state)
   \<and> status (fst (get_v1 Original no_key (at_time stub_ok 2000) sample_request warm_state)) \<noteq> 401"
  by (simp add: run_warm)

text \<open>
  C7, as the code has it. On a cache miss, a request whose \<open>X-API-Key\<close> header is a
  non-empty string is forwarded with that value, whatever key is configured; a request
  whose header is absent or empty is forwarded with the configured key when that is a
  non-empty string. \<open>proxy.js\<close> forwards a non-empty header value and has no configured
  key to fall back on: with the header absent or empty it answers 401 and calls nothing.
\<close>

theorem upstream_call_credential:
  "((\<forall>c. cache s (upstream_url req) = Some c \<longrightarrow> 60000 \<le> now_check e - timestamp c) \<longrightarrow>
      (x_api_key req = Some h \<and> h \<noteq> [] \<longrightarrow>
         calls (snd (get_v1 v cfg e req s)) = calls s @ [(upstream_url req, Some h)])
      \<and> ((x_api_key req = None \<or> x_api_key req = Some []) \<and> API_KEY cfg = Some k \<and> k \<noteq> [] \<longrightarrow>
         calls (snd (get_v1 v cfg e req s)) = calls s @ [(upstream_url req, Some k)]))
   \<and> (x_api_key r = Some h \<and> h \<noteq> [] \<longrightarrow>
         calls (snd (get_api cfg e r s)) = calls s @ [(api_url r, Some h)])
   \<and> (x_api_key r = None \<or> x_api_key r = Some [] \<longrightarrow>
         calls (snd (get_api cfg e r s)) = calls s \<and> status (fst (get_api cfg e r s)) = 401)"
proof (intro conjI impI)
  assume m: "\<forall>c. cache s (upstream_url req) = Some c \<longrightarrow> 60000 \<le> now_check e - timestamp c"
    and a: "x_api_key req = Some h \<and> h \<noteq> []"
  show "calls (snd (get_v1 v cfg e req s)) = calls s @ [(upstream_url req, Some h)]"
    using get_v1_calls_miss [OF m, of cfg v] a by (simp add: js_or_def truthy_def)
next
  assume m: "\<forall>c. cache s (upstream_url req) = Some c \<longrightarrow> 60000 \<le> now_check e - timestamp c"
    and a: "(x_api_key req = None \<or> x_api_key req = Some []) \<and> API_KEY cfg = Some k \<and> k \<noteq> []"
  show "calls (snd (get_v1 v cfg e req s)) = calls s @ [(upstream_url req, Some k)]"
    using get_v1_calls_miss [OF m, of cfg v] a by (auto simp: js_or_def truthy_def)
next
  assume "x_api_key r = Some h \<and> h \<noteq> []"
  then show "calls (snd (get_api cfg e r s)) = calls s @ [(api_url r, Some h)]"
    by (simp add: get_api_calls truthy_def)
next
  assume a: "x_api_key r = None \<or> x_api_key r = Some []"
  then show "calls (snd (get_api cfg e r s)) = calls s"
    by (auto simp: get_api_calls truthy_def)
  from a have "\<not> truthy (x_api_key r)" by (auto simp: truthy_def)
  then show "status (fst (get_api cfg e r s)) = 401"
    by (simp add: get_api_no_header)
qed

theorem upstream_call_credential_witness:
  "calls (snd (get_v1 Original with_key (at_time stub_ok 1000)
        (sample_request\<lparr>x_api_key := Some ''secret''\<rparr>) cold_state))
     = [(sample_url, Some ''secret'')]
   \<and> calls (snd (get_v1 Original with_key (at_time stub_ok 1000) sample_request cold_state))
     = [(sample_url, Some ''env-key'')]
   \<and> calls (snd (get_api with_key (at_time stub_ok 1000) sample_api_request cold_state))
     = [(''https://api.oddsengine.dev/v1/events?league=nfl'', Some ''secret'')]
   \<and> calls (snd (get_api with_key (at_time stub_ok 1000)
        (sample_api_request\<lparr>x_api_key := None\<rparr>) cold_state)) = []
   \<and> status (fst (get_api with_key (at_time stub_ok 1000)
        (sample_api_request\<lparr>x_api_key := None\<rparr>) cold_state)) = 401"
proof -
  have a: "calls (snd (get_v1 Original with_key (at_time stub_ok 1000)
        (sample_request\<lparr>x_api_key := Some ''secret''\<rparr>) cold_state))
     = [(sample_url, Some ''secret'')]"
    using upstream_call_credential [where s = cold_state and e = "at_time stub_ok 1000"
        and req = "sample_request\<lparr>x_api_key := Some ''secret''\<rparr>" and h = "''secret''"
        and v = Original and cfg = with_key]
    by (simp add: sample_url_eq)
  have b: "calls (snd (get_v1 Original with_key (at_time stub_ok 1000) sample_request cold_state))
     = [(sample_url, Some ''env-key'')]"
    using upstream_call_credential [where s = cold_state and e = "at_time stub_ok 1000"
        and req = sample_request and k = "''env-key''" and v = Original and cfg = with_key]
    by (simp add: sample_url_eq)
  have c: "calls (snd (get_api with_key (at_time stub_ok 1000) sample_api_request cold_state))
     = [(''https://api.oddsengine.dev/v1/events?league=nfl'', Some ''secret'')]"
    using upstream_call_credential [where s = cold_state and e = "at_time stub_ok 1000"
        and r = sample_api_request and h = "''secret''" and cfg = with_key]
    by (simp add: api_url_sample) (simp add: sample_api_request_def)
  have d: "calls (snd (get_api with_key (at_time stub_ok 1000)
        (sample_api_request\<lparr>x_api_key := None\<rparr>) cold_state)) = []
   \<and> status (fst (get_api with_key (at_time stub_ok 1000)
        (sample_api_request\<lparr>x_api_key := None\<rparr>) cold_state)) = 401"
    using upstream_call_credential [where s = cold_state and e = "at_time stub_ok 1000"
        and r = "sample_api_request\<lparr>x_api_key := None\<rparr>" and cfg = with_key]
    by simp
  from a b c d show ?thesis by simp
qed

text \<open>
  C7 as stated fails: \<open>req.headers['x-api-key'] || API_KEY\<close> takes the configured key when
  the header is present with an empty value, so the header does not always override.
\<close>

theorem empty_header_falls_back_to_env_key:
  "x_api_key (sample_request\<lparr>x_api_key := Some ''''\<rparr>) = Some ''''
   \<and> calls (snd (get_v1 Original with_key (at_time stub_ok 1000)
        (sample_request\<lparr>x_api_key := Some ''''\<rparr>) cold_state))
     = [(sample_url, Some ''env-key'')]"
  by (simp add: handler_defs sample_defs sample_url_eq ok_json_def)

section \<open>Upstream errors\<close>

text \<open>
  C5, as the code has it. On a cache miss with a credential, an upstream response whose
  status is outside 200..299 and whose body can be read is answered with that status
  and the envelope \<open>{error: 'api_error', message: <body text>, status: <status>}\<close>; the
  upstream has been called once and the store is unchanged. When reading the body fails,
  the exception reaches the \<open>catch\<close>: the answer is 500 with \<open>error: proxy_error\<close> and the
  failure's message.
\<close>

theorem upstream_error_passthrough:
  "(\<forall>c. cache s (upstream_url req) = Some c \<longrightarrow> 60000 \<le> now_check e - timestamp c)
   \<and> js_or (x_api_key req) (API_KEY cfg) = Some k \<and> k \<noteq> []
   \<and> \<not> (200 \<le> st \<and> st < 300) \<longrightarrow>
     (fetch e (upstream_url req) (Some k) = Response st (Inr errorText) \<longrightarrow>
        get_v1 v cfg e req s
          = (\<lparr>status = st,
              body = JObj [(''error'', JStr ''api_error''), (''message'', JStr errorText),
                           (''status'', JNum (int st))]\<rparr>,
             s\<lparr>calls := calls s @ [(upstream_url req, Some k)]\<rparr>))
     \<and> (fetch e (upstream_url req) (Some k) = Response st (Inl m) \<longrightarrow>
        get_v1 v cfg e req s
          = (\<lparr>status = 500,
              body = JObj [(''error'', JStr ''proxy_error''), (''message'', JStr m)]\<rparr>,
             s\<lparr>calls := calls s @ [(upstream_url req, Some k)]\<rparr>))"
proof (intro impI conjI)
  assume a: "(\<forall>c. cache s (upstream_url req) = Some c \<longrightarrow> 60000 \<le> now_check e - timestamp c)
   \<and> js_or (x_api_key req) (API_KEY cfg) = Some k \<and> k \<noteq> []
   \<and> \<not> (200 \<le> st \<and> st < 300)"
  then have miss: "fresh_entry CACHE_DURATION (now_check e) (cache s (upstream_url req)) = None"
    by (simp add: fresh_entry_None_iff CACHE_DURATION_def)
  from a have key: "truthy (js_or (x_api_key req) (API_KEY cfg))"
    by (simp add: truthy_def)
  from a have nok: "\<not> response_ok st"
    by (simp add: response_ok_def)
  {
    assume "fetch e (upstream_url req) (Some k) = Response st (Inr errorText)"
    then show "get_v1 v cfg e req s
          = (\<lparr>status = st,
              body = JObj [(''error'', JStr ''api_error''), (''message'', JStr errorText),
                           (''status'', JNum (int st))]\<rparr>,
             s\<lparr>calls := calls s @ [(upstream_url req, Some k)]\<rparr>)"
      using a key nok by (simp add: get_v1_miss [OF miss] called_def api_error_def)
  }
  {
    assume "fetch e (upstream_url req) (Some k) = Response st (Inl m)"
    then show "get_v1 v cfg e req s
          = (\<lparr>status = 500,
              body = JObj [(''error'', JStr ''proxy_error''), (''message'', JStr m)]\<rparr>,
             s\<lparr>calls := calls s @ [(upstream_url req, Some k)]\<rparr>)"
      using a key by (simp add: get_v1_miss [OF miss] called_def proxy_error_def)
  }
qed

theorem upstream_error_passthrough_witness:
  \<open>get_v1 Original no_key (at_time stub_429 1000) (sample_request\<lparr>x_api_key := Some ''secret''\<rparr>)
      cold_state
     = (\<lparr>status = 429,
         body = JObj [(''error'', JStr ''api_error''), (''message'', JStr ''{"retry_after":5}''),
                      (''status'', JNum 429)]\<rparr>,
        \<lparr>cache = Map.empty, calls = [(sample_url, Some ''secret'')]\<rparr>)
   \<and> get_v1 Original no_key (at_time stub_read_failure 1000)
        (sample_request\<lparr>x_api_key := Some ''secret''\<rparr>) cold_state
     = (\<lparr>status = 500,
         body = JObj [(''error'', JStr ''proxy_error''), (''message'', JStr ''Premature close'')]\<rparr>,
        \<lparr>cache = Map.empty, calls = [(sample_url, Some ''secret'')]\<rparr>)\<close>
proof -
  have a: \<open>get_v1 Original no_key (at_time stub_429 1000) (sample_request\<lparr>x_api_key := Some ''secret''\<rparr>)
      cold_state
     = (\<lparr>status = 429,
         body = JObj [(''error'', JStr ''api_error''), (''message'', JStr ''{"retry_after":5}''),
                      (''status'', JNum 429)]\<rparr>,
        \<lparr>cache = Map.empty, calls = [(sample_url, Some ''secret'')]\<rparr>)\<close>
    using upstream_error_passthrough [where s = cold_state and e = "at_time stub_429 1000"
      and req = "sample_request\<lparr>x_api_key := Some ''secret''\<rparr>" and cfg = no_key
      and k = "''secret''" and st = 429 and errorText = \<open>''{"retry_after":5}''\<close> and v = Original]
    by (simp add: js_or_def truthy_def stub_429_def cold_state_def sample_url_eq)
  have b: "get_v1 Original no_key (at_time stub_read_failure 1000)
        (sample_request\<lparr>x_api_key := Some ''secret''\<rparr>) cold_state
     = (\<lparr>status = 500,
         body = JObj [(''error'', JStr ''proxy_error''), (''message'', JStr ''Premature close'')]\<rparr>,
        \<lparr>cache = Map.empty, calls = [(sample_url, Some ''secret'')]\<rparr>)"
    using upstream_error_passthrough [where s = cold_state and e = "at_time stub_read_failure 1000"
      and req = "sample_request\<lparr>x_api_key := Some ''secret''\<rparr>" and cfg = no_key
      and k = "''secret''" and st = 503 and m = "''Premature close''" and v = Original]
    by (simp add: js_or_def truthy_def stub_read_failure_def cold_state_def sample_url_eq)
  from a b show ?thesis by simp
qed

text \<open>
  C5 as stated fails on a read failure: for an upstream 503 whose body cannot be read the
  answer is 500 \<open>proxy_error\<close>, not 503 \<open>api_error\<close> with an empty message.
\<close>

theorem read_failure_is_proxy_error:
  "fetch (at_time stub_read_failure 1000) sample_url (Some ''secret'')
     = Response 503 (Inl ''Premature close'')
   \<and> get_v1 Original no_key (at_time stub_read_failure 1000)
        (sample_request\<lparr>x_api_key := Some ''secret''\<rparr>) cold_state
     = (\<lparr>status = 500,
         body = JObj [(''error'', JStr ''proxy_error''), (''message'', JStr ''Premature close'')]\<rparr>,
        \<lparr>cache = Map.empty, calls = [(sample_url, Some ''secret'')]\<rparr>)
   \<and> fst (get_v1 Original no_key (at_time stub_read_failure 1000)
        (sample_request\<lparr>x_api_key := Some ''secret''\<rparr>) cold_state)
     \<noteq> \<lparr>status = 503,
         body = JObj [(''error'', JStr ''api_error''), (''message'', JStr ''''),
                      (''status'', JNum 503)]\<rparr>"
  by (simp add: handler_defs sample_defs sample_url_eq proxy_error_def)

section \<open>Every path of the handler\<close>

lemma is_envelope_errors [simp]:
  "is_envelope (api_error st t)" "is_envelope (proxy_error m)" "is_envelope (missing_api_key v)"
  by (simp_all add: is_envelope_def api_error_fields proxy_error_fields missing_api_key_fields)

lemma get_v1_cases:
  obtains (hit) c where "cache s (upstream_url req) = Some c" "now_check e - timestamp c < CACHE_DURATION"
      "get_v1 v cfg e req s = (ok_json (data c), s)"
  | (no_key) "get_v1 v cfg e req s = (missing_api_key v, s)"
  | (thrown) m where "get_v1 v cfg e req s = (proxy_error m, called s req cfg)"
  | (not_ok) st t where "\<not> response_ok st" "get_v1 v cfg e req s = (api_error st t, called s req cfg)"
  | (stored) d where "truthy (js_or (x_api_key req) (API_KEY cfg))"
      "get_v1 v cfg e req s = (ok_json d,
          (called s req cfg)\<lparr>cache := (cache s)(upstream_url req \<mapsto>
              \<lparr>data = d, timestamp = now_store e\<rparr>)\<rparr>)"
proof (cases "fresh_entry CACHE_DURATION (now_check e) (cache s (upstream_url req))")
  case (Some c)
  then show ?thesis
    using hit [of c] by (simp add: fresh_entry_Some_iff get_v1_hit)
next
  case None
  note miss = get_v1_miss [OF None, of v cfg]
  show ?thesis
  proof (cases "truthy (js_or (x_api_key req) (API_KEY cfg))")
    case False
    then show ?thesis using miss no_key by simp
  next
    case True
    show ?thesis
    proof (cases "fetch e (upstream_url req) (js_or (x_api_key req) (API_KEY cfg))")
      case (NetworkError m)
      then show ?thesis using miss True thrown [of m] by simp
    next
      case (Response st rd)
      show ?thesis
      proof (cases rd)
        case (Inl m)
        then show ?thesis using miss True Response thrown [of m] by simp
      next
        case (Inr t)
        show ?thesis
        proof (cases "response_ok st")
          case False
          then show ?thesis using miss True Response Inr not_ok [of st t] by simp
        next
          case ok: True
          show ?thesis
          proof (cases "json_parse cfg t")
            case (Inl m)
            then show ?thesis using miss True Response Inr ok thrown [of m] by simp
          next
            case (Inr d)
            then show ?thesis using miss True Response \<open>rd = Inr t\<close> ok stored [of d] by simp
          qed
        qed
      qed
    qed
  qed
qed

lemma get_v1_well_formed:
  "status (fst (get_v1 v cfg e req s)) = 200 \<or> is_envelope (fst (get_v1 v cfg e req s))"
  by (cases rule: get_v1_cases [of s req e v cfg]) (simp_all add: ok_json_def)



lemma get_v1_cache_other:
  "k \<noteq> upstream_url req \<Longrightarrow> cache (snd (get_v1 v cfg e req s)) k = cache s k"
  by (cases rule: get_v1_cases [of s req e v cfg]) auto




lemma get_v1_cache_change:
  "cache (snd (get_v1 v cfg e req s)) = cache s
   \<or> (\<exists>st t d. fetch e (upstream_url req) (js_or (x_api_key req) (API_KEY cfg)) = Response st (Inr t)
         \<and> response_ok st \<and> json_parse cfg t = Inr d
         \<and> fst (get_v1 v cfg e req s) = ok_json d
         \<and> cache (snd (get_v1 v cfg e req s))
             = (cache s)(upstream_url req \<mapsto> \<lparr>data = d, timestamp = now_store e\<rparr>))"
proof (cases "fresh_entry CACHE_DURATION (now_check e) (cache s (upstream_url req))")
  case (Some c)
  then show ?thesis by (simp add: fresh_entry_Some_iff get_v1_hit)
next
  case None
  show ?thesis
    by (simp add: get_v1_miss [OF None] split: fetch_result.splits sum.splits)
qed

lemma sample_originalUrl [simp]: "originalUrl sample_request = ''/v1/events?league=NBA''"
  by (simp add: sample_request_def)





section \<open>Repeated requests\<close>

text \<open>A miss answered 200 has stored the payload, stamped when it was stored.\<close>

lemma get_v1_miss_200:
  assumes miss: "fresh_entry CACHE_DURATION (now_check e) (cache s (upstream_url req)) = None"
    and run: "get_v1 v cfg e req s = (r, s')" and ok: "status r = 200"
  shows "cache s' (upstream_url req) = Some \<lparr>data = body r, timestamp = now_store e\<rparr>"
    and "calls s' = calls s @ [(upstream_url req, js_or (x_api_key req) (API_KEY cfg))]"
    and "r = ok_json (body r)"
  using run ok unfolding get_v1_miss [OF miss]
  by (auto simp: missing_api_key_def proxy_error_def api_error_def ok_json_def response_ok_def
      split: if_splits fetch_result.splits sum.splits)

text \<open>
  C1. When the store holds, for the URL derived from the request, an entry written less
  than 60000 ms before the freshness test, the handler answers 200 with the entry's
  payload and leaves the state as it was: the upstream's call log does not grow. When a
  request that found no fresh entry has been answered 200, the store holds its payload
  under its key with the timestamp read at \<open>cache.set\<close>, and the same request handled
  again less than 60000 ms after that timestamp gets the same response, with the state
  (call log included) unchanged, whatever the upstream would now answer. When a request
  was itself served from a fresh entry, a repeat while that entry is still less than
  60000 ms old gets the same response again.
\<close>

theorem cache_hit_within_ttl:
  "(cache s (upstream_url req) = Some c \<and> now_check e - timestamp c < 60000 \<longrightarrow>
      get_v1 v cfg e req s = (\<lparr>status = 200, body = data c\<rparr>, s))
   \<and> ((\<forall>c. cache s (upstream_url req) = Some c \<longrightarrow> 60000 \<le> now_check ea - timestamp c)
        \<and> get_v1 v cfg ea req s = (ra, sa) \<and> status ra = 200 \<longrightarrow>
        cache sa (upstream_url req) = Some \<lparr>data = body ra, timestamp = now_store ea\<rparr>
        \<and> (now_check eb - now_store ea < 60000 \<longrightarrow> get_v1 v cfg eb req sa = (ra, sa)))
   \<and> (cache s (upstream_url req) = Some c \<and> now_check ea - timestamp c < 60000
        \<and> now_check eb - timestamp c < 60000 \<longrightarrow>
        get_v1 v cfg eb req (snd (get_v1 v cfg ea req s)) = get_v1 v cfg ea req s)"
proof (intro conjI impI)
  assume "cache s (upstream_url req) = Some c \<and> now_check e - timestamp c < 60000"
  then show "get_v1 v cfg e req s = (\<lparr>status = 200, body = data c\<rparr>, s)"
    using get_v1_hit [of s req c e v cfg] by (simp add: CACHE_DURATION_def ok_json_def)
next
  assume a: "(\<forall>c. cache s (upstream_url req) = Some c \<longrightarrow> 60000 \<le> now_check ea - timestamp c)
        \<and> get_v1 v cfg ea req s = (ra, sa) \<and> status ra = 200"
  then have miss: "fresh_entry CACHE_DURATION (now_check ea) (cache s (upstream_url req)) = None"
    by (simp add: fresh_entry_None_iff CACHE_DURATION_def)
  from a have run: "get_v1 v cfg ea req s = (ra, sa)" and ok: "status ra = 200"
    by simp_all
  show stored: "cache sa (upstream_url req) = Some \<lparr>data = body ra, timestamp = now_store ea\<rparr>"
    by (rule get_v1_miss_200(1) [OF miss run ok])
  have ra: "ra = ok_json (body ra)"
    by (rule get_v1_miss_200(3) [OF miss run ok])
  assume "now_check eb - now_store ea < 60000"
  then have "get_v1 v cfg eb req sa = (ok_json (body ra), sa)"
    using get_v1_hit [OF stored, of eb v cfg] by (simp add: CACHE_DURATION_def)
  then show "get_v1 v cfg eb req sa = (ra, sa)"
    using ra by simp
next
  assume a: "cache s (upstream_url req) = Some c \<and> now_check ea - timestamp c < 60000
        \<and> now_check eb - timestamp c < 60000"
  then have "get_v1 v cfg ea req s = (ok_json (data c), s)"
    "get_v1 v cfg eb req s = (ok_json (data c), s)"
    using get_v1_hit [of s req c ea v cfg] get_v1_hit [of s req c eb v cfg]
    by (simp_all add: CACHE_DURATION_def)
  then show "get_v1 v cfg eb req (snd (get_v1 v cfg ea req s)) = get_v1 v cfg ea req s"
    by simp
qed

theorem cache_hit_within_ttl_witness:
  "get_v1 Original no_key (at_time stub_down 2000) sample_request warm_state
     = (\<lparr>status = 200, body = sample_payload\<rparr>, warm_state)
   \<and> cache (snd (get_v1 Original with_key (at_time stub_ok 1000) sample_request cold_state))
        sample_url
       = Some \<lparr>data = sample_payload, timestamp = 1005\<rparr>
   \<and> get_v1 Original with_key (at_time stub_down 61004) sample_request
         (snd (get_v1 Original with_key (at_time stub_ok 1000) sample_request cold_state))
       = get_v1 Original with_key (at_time stub_ok 1000) sample_request cold_state
   \<and> get_v1 Original no_key (at_time stub_down 60999) sample_request
         (snd (get_v1 Original no_key (at_time stub_down 2000) sample_request warm_state))
       = get_v1 Original no_key (at_time stub_down 2000) sample_request warm_state"
proof -
  have a: "get_v1 Original no_key (at_time stub_down 2000) sample_request warm_state
     = (\<lparr>status = 200, body = sample_payload\<rparr>, warm_state)"
    using cache_hit_within_ttl [where s = warm_state and req = sample_request
        and c = "\<lparr>data = sample_payload, timestamp = 1000\<rparr>"
        and e = "at_time stub_down 2000" and v = Original and cfg = no_key, THEN conjunct1]
    by (simp add: sample_url_eq)
  note second = cache_hit_within_ttl [where s = cold_state and req = sample_request
        and ea = "at_time stub_ok 1000" and v = Original and cfg = with_key
        and eb = "at_time stub_down 61004"
        and ra = "fst (get_v1 Original with_key (at_time stub_ok 1000) sample_request cold_state)"
        and sa = "snd (get_v1 Original with_key (at_time stub_ok 1000) sample_request cold_state)",
        THEN conjunct2, THEN conjunct1]
  have b: "cache (snd (get_v1 Original with_key (at_time stub_ok 1000) sample_request cold_state))
        sample_url
       = Some \<lparr>data = sample_payload, timestamp = 1005\<rparr>"
    using second by (simp add: run_cold_ok sample_url_eq)
  have c: "get_v1 Original with_key (at_time stub_down 61004) sample_request
         (snd (get_v1 Original with_key (at_time stub_ok 1000) sample_request cold_state))
       = get_v1 Original with_key (at_time stub_ok 1000) sample_request cold_state"
    using second by (simp add: run_cold_ok sample_url_eq)
  have d: "get_v1 Original no_key (at_time stub_down 60999) sample_request
         (snd (get_v1 Original no_key (at_time stub_down 2000) sample_request warm_state))
       = get_v1 Original no_key (at_time stub_down 2000) sample_request warm_state"
    using cache_hit_within_ttl [where s = warm_state and req = sample_request
        and c = "\<lparr>data = sample_payload, timestamp = 1000\<rparr>"
        and ea = "at_time stub_down 2000" and eb = "at_time stub_down 60999"
        and v = Original and cfg = no_key, THEN conjunct2, THEN conjunct2]
    by (simp add: sample_url_eq)
  from a b c d show ?thesis by (intro conjI)
qed

section \<open>Failures\<close>

lemma settled_env_simps [simp]:
  "fetch_p (settled_env e) = (\<lambda>url k. settled (fetch e url k))"
  "now_check_p (settled_env e) = now_check e" "now_store_p (settled_env e) = now_store e"
  by (simp_all add: settled_env_def)

lemma serve_v1_settled:
  "serve_v1 v cfg (settled_env e) req s
     = (Some (fst (get_v1 v cfg e req s)), snd (get_v1 v cfg e req s))"
  by (simp add: serve_v1_def v1_await_def get_v1_def v1_try_def Let_def
      split: option.splits fetch_result.splits sum.splits)

lemma serve_v1_hit:
  assumes "fresh_entry CACHE_DURATION (now_check_p w) (cache s (upstream_url req)) = Some c"
  shows "serve_v1 v cfg w req s = (Some (ok_json (data c)), s)"
  using assms by (simp add: serve_v1_def v1_await_def)

lemma serve_v1_miss:
  assumes "fresh_entry CACHE_DURATION (now_check_p w) (cache s (upstream_url req)) = None"
  shows "serve_v1 v cfg w req s =
    (if \<not> truthy (js_or (x_api_key req) (API_KEY cfg)) then (Some (missing_api_key v), s)
     else case fetch_p w (upstream_url req) (js_or (x_api_key req) (API_KEY cfg)) of
        Pending \<Rightarrow> (None, called s req cfg)
      | Settled (Rejects m) \<Rightarrow> (Some (proxy_error m), called s req cfg)
      | Settled (Responds st Pending) \<Rightarrow> (None, called s req cfg)
      | Settled (Responds st (Settled (Inl m))) \<Rightarrow> (Some (proxy_error m), called s req cfg)
      | Settled (Responds st (Settled (Inr t))) \<Rightarrow>
          if \<not> response_ok st then (Some (api_error st t), called s req cfg)
          else (case json_parse cfg t of
                  Inl m \<Rightarrow> (Some (proxy_error m), called s req cfg)
                | Inr d \<Rightarrow> (Some (ok_json d),
                    (called s req cfg)\<lparr>cache := (cache s)(upstream_url req \<mapsto>
                        \<lparr>data = d, timestamp = now_store_p w\<rparr>)\<rparr>)))"
  using assms
  by (simp add: serve_v1_def v1_await_def Let_def called_def
      split: promise.splits upstream_reply.splits sum.splits)

lemma serve_v1_unanswered:
  assumes "fst (serve_v1 v cfg w req s) = None"
  shows "fetch_p w (upstream_url req) (js_or (x_api_key req) (API_KEY cfg)) = Pending
         \<or> (\<exists>st. fetch_p w (upstream_url req) (js_or (x_api_key req) (API_KEY cfg))
                   = Settled (Responds st Pending))"
proof (cases "fresh_entry CACHE_DURATION (now_check_p w) (cache s (upstream_url req))")
  case (Some c)
  then show ?thesis using assms by (simp add: serve_v1_hit)
next
  case None
  show ?thesis
    using assms unfolding serve_v1_miss [OF None]
    by (auto split: if_splits promise.splits upstream_reply.splits sum.splits)
qed

lemma serve_v1_well_formed:
  assumes "fst (serve_v1 v cfg w req s) = Some r"
  shows "status r = 200 \<or> is_envelope r"
proof (cases "fresh_entry CACHE_DURATION (now_check_p w) (cache s (upstream_url req))")
  case (Some c)
  then show ?thesis using assms by (auto simp: serve_v1_hit ok_json_def)
next
  case None
  show ?thesis
    using assms unfolding serve_v1_miss [OF None]
    by (auto simp: ok_json_def split: if_splits promise.splits upstream_reply.splits sum.splits)
qed

lemma hung_upstream_simps [simp]:
  "fetch_p hung_upstream = (\<lambda>url k. Pending)" "now_check_p hung_upstream = 1000"
  "now_store_p hung_upstream = 1005"
  by (simp_all add: hung_upstream_def)

text \<open>
  C6, as the code has it. On a cache miss with a credential, each failure the handler can
  meet is answered 500 with \<open>error: proxy_error\<close> and the failure's message, after one
  upstream call and with the store unchanged: a rejected \<open>fetch\<close> (network error), a
  failed read of the body under any status, and a body that does not parse as JSON
  under a status in 200..299. The handler leaves the inbound request unanswered only
  when the promise of \<open>fetch\<close> or of the body read never settles, and then it does leave
  it unanswered. Every response it gives is a 200 or an error envelope with one of the
  three kinds and a string message; when every promise settles it gives the response
  of \<open>get_v1\<close>.
\<close>

theorem failures_become_proxy_error:
  "((\<forall>c. cache s (upstream_url req) = Some c \<longrightarrow> 60000 \<le> now_check_p w - timestamp c)
      \<and> js_or (x_api_key req) (API_KEY cfg) = Some k \<and> k \<noteq> [] \<longrightarrow>
      (fetch_p w (upstream_url req) (Some k) = Settled (Rejects m) \<longrightarrow>
         serve_v1 v cfg w req s
           = (Some \<lparr>status = 500,
                    body = JObj [(''error'', JStr ''proxy_error''), (''message'', JStr m)]\<rparr>,
              s\<lparr>calls := calls s @ [(upstream_url req, Some k)]\<rparr>))
      \<and> (fetch_p w (upstream_url req) (Some k) = Settled (Responds st (Settled (Inl m))) \<longrightarrow>
         serve_v1 v cfg w req s
           = (Some \<lparr>status = 500,
                    body = JObj [(''error'', JStr ''proxy_error''), (''message'', JStr m)]\<rparr>,
              s\<lparr>calls := calls s @ [(upstream_url req, Some k)]\<rparr>))
      \<and> (fetch_p w (upstream_url req) (Some k) = Settled (Responds st (Settled (Inr t)))
           \<and> 200 \<le> st \<and> st < 300 \<and> json_parse cfg t = Inl m \<longrightarrow>
         serve_v1 v cfg w req s
           = (Some \<lparr>status = 500,
                    body = JObj [(''error'', JStr ''proxy_error''), (''message'', JStr m)]\<rparr>,
              s\<lparr>calls := calls s @ [(upstream_url req, Some k)]\<rparr>))
      \<and> (fetch_p w (upstream_url req) (Some k) = Pending
           \<or> fetch_p w (upstream_url req) (Some k) = Settled (Responds st Pending) \<longrightarrow>
         serve_v1 v cfg w req s = (None, s\<lparr>calls := calls s @ [(upstream_url req, Some k)]\<rparr>)))
   \<and> (fst (serve_v1 v cfg w req s) = None \<longrightarrow>
        fetch_p w (upstream_url req) (js_or (x_api_key req) (API_KEY cfg)) = Pending
        \<or> (\<exists>st. fetch_p w (upstream_url req) (js_or (x_api_key req) (API_KEY cfg))
                  = Settled (Responds st Pending)))
   \<and> (fst (serve_v1 v cfg w req s) = Some r \<longrightarrow> status r = 200 \<or> is_envelope r)
   \<and> serve_v1 v cfg (settled_env e) req s
        = (Some (fst (get_v1 v cfg e req s)), snd (get_v1 v cfg e req s))
   \<and> (status (fst (get_v1 v cfg e req s)) = 200 \<or> is_envelope (fst (get_v1 v cfg e req s)))"
proof (intro conjI impI)
  assume a: "(\<forall>c. cache s (upstream_url req) = Some c \<longrightarrow> 60000 \<le> now_check_p w - timestamp c)
      \<and> js_or (x_api_key req) (API_KEY cfg) = Some k \<and> k \<noteq> []"
  then have miss: "fresh_entry CACHE_DURATION (now_check_p w) (cache s (upstream_url req)) = None"
    by (simp add: fresh_entry_None_iff CACHE_DURATION_def)
  from a have key: "js_or (x_api_key req) (API_KEY cfg) = Some k" "truthy (Some k)"
    by (simp_all add: truthy_def)
  note run = serve_v1_miss [OF miss, of v cfg, unfolded key called_def]
  {
    assume "fetch_p w (upstream_url req) (Some k) = Settled (Rejects m)"
    then show "serve_v1 v cfg w req s
           = (Some \<lparr>status = 500,
                    body = JObj [(''error'', JStr ''proxy_error''), (''message'', JStr m)]\<rparr>,
              s\<lparr>calls := calls s @ [(upstream_url req, Some k)]\<rparr>)"
      using key(2) by (simp add: run proxy_error_def)
  }
  {
    assume "fetch_p w (upstream_url req) (Some k) = Settled (Responds st (Settled (Inl m)))"
    then show "serve_v1 v cfg w req s
           = (Some \<lparr>status = 500,
                    body = JObj [(''error'', JStr ''proxy_error''), (''message'', JStr m)]\<rparr>,
              s\<lparr>calls := calls s @ [(upstream_url req, Some k)]\<rparr>)"
      using key(2) by (simp add: run proxy_error_def)
  }
  {
    assume "fetch_p w (upstream_url req) (Some k) = Settled (Responds st (Settled (Inr t)))
           \<and> 200 \<le> st \<and> st < 300 \<and> json_parse cfg t = Inl m"
    then show "serve_v1 v cfg w req s
           = (Some \<lparr>status = 500,
                    body = JObj [(''error'', JStr ''proxy_error''), (''message'', JStr m)]\<rparr>,
              s\<lparr>calls := calls s @ [(upstream_url req, Some k)]\<rparr>)"
      using key(2) by (simp add: run proxy_error_def response_ok_def)
  }
  {
    assume "fetch_p w (upstream_url req) (Some k) = Pending
           \<or> fetch_p w (upstream_url req) (Some k) = Settled (Responds st Pending)"
    then show "serve_v1 v cfg w req s
        = (None, s\<lparr>calls := calls s @ [(upstream_url req, Some k)]\<rparr>)"
      using key(2) by (auto simp: run)
  }
next
  assume "fst (serve_v1 v cfg w req s) = None"
  then show "fetch_p w (upstream_url req) (js_or (x_api_key req) (API_KEY cfg)) = Pending
        \<or> (\<exists>st. fetch_p w (upstream_url req) (js_or (x_api_key req) (API_KEY cfg))
                  = Settled (Responds st Pending))"
    by (rule serve_v1_unanswered)
next
  assume "fst (serve_v1 v cfg w req s) = Some r"
  then show "status r = 200 \<or> is_envelope r"
    by (rule serve_v1_well_formed)
next
  show "serve_v1 v cfg (settled_env e) req s
        = (Some (fst (get_v1 v cfg e req s)), snd (get_v1 v cfg e req s))"
    by (rule serve_v1_settled)
next
  show "status (fst (get_v1 v cfg e req s)) = 200 \<or> is_envelope (fst (get_v1 v cfg e req s))"
    by (rule get_v1_well_formed)
qed

theorem failures_become_proxy_error_witness:
  "serve_v1 Fixed with_key (settled_env (at_time stub_down 1000)) sample_request cold_state
     = (Some \<lparr>status = 500,
              body = JObj [(''error'', JStr ''proxy_error''),
                           (''message'', JStr ''connect ECONNREFUSED'')]\<rparr>,
        \<lparr>cache = Map.empty, calls = [(sample_url, Some ''env-key'')]\<rparr>)
   \<and> serve_v1 Fixed with_key (settled_env (at_time stub_truncated 1000)) sample_request cold_state
     = (Some \<lparr>status = 500,
              body = JObj [(''error'', JStr ''proxy_error''),
                           (''message'', JStr ''Premature close'')]\<rparr>,
        \<lparr>cache = Map.empty, calls = [(sample_url, Some ''env-key'')]\<rparr>)
   \<and> serve_v1 Fixed with_key (settled_env (at_time stub_html 1000)) sample_request cold_state
     = (Some \<lparr>status = 500,
              body = JObj [(''error'', JStr ''proxy_error''),
                           (''message'', JStr ''Unexpected token'')]\<rparr>,
        \<lparr>cache = Map.empty, calls = [(sample_url, Some ''env-key'')]\<rparr>)
   \<and> serve_v1 Fixed with_key hung_upstream sample_request cold_state
     = (None, \<lparr>cache = Map.empty, calls = [(sample_url, Some ''env-key'')]\<rparr>)
   \<and> is_envelope (fst (get_v1 Fixed with_key (at_time stub_html 1000) sample_request cold_state))"
proof -
  have k: "js_or (x_api_key sample_request) (API_KEY with_key) = Some ''env-key''"
    by (simp add: js_or_def truthy_def)
  have a: "serve_v1 Fixed with_key (settled_env (at_time stub_down 1000)) sample_request cold_state
     = (Some \<lparr>status = 500,
              body = JObj [(''error'', JStr ''proxy_error''),
                           (''message'', JStr ''connect ECONNREFUSED'')]\<rparr>,
        \<lparr>cache = Map.empty, calls = [(sample_url, Some ''env-key'')]\<rparr>)"
    using failures_become_proxy_error [where v = Fixed and cfg = with_key
        and req = sample_request and s = cold_state and k = "''env-key''"
        and w = "settled_env (at_time stub_down 1000)" and m = "''connect ECONNREFUSED''", THEN conjunct1] k
    by (simp add: stub_down_def sample_url_eq cold_state_def)
  have b: "serve_v1 Fixed with_key (settled_env (at_time stub_truncated 1000)) sample_request cold_state
     = (Some \<lparr>status = 500,
              body = JObj [(''error'', JStr ''proxy_error''),
                           (''message'', JStr ''Premature close'')]\<rparr>,
        \<lparr>cache = Map.empty, calls = [(sample_url, Some ''env-key'')]\<rparr>)"
    using failures_become_proxy_error [where v = Fixed and cfg = with_key
        and req = sample_request and s = cold_state and k = "''env-key''"
        and w = "settled_env (at_time stub_truncated 1000)" and m = "''Premature close''"
        and st = 200, THEN conjunct1] k
    by (simp add: stub_truncated_def sample_url_eq cold_state_def)
  have c: "serve_v1 Fixed with_key (settled_env (at_time stub_html 1000)) sample_request cold_state
     = (Some \<lparr>status = 500,
              body = JObj [(''error'', JStr ''proxy_error''),
                           (''message'', JStr ''Unexpected token'')]\<rparr>,
        \<lparr>cache = Map.empty, calls = [(sample_url, Some ''env-key'')]\<rparr>)"
    using failures_become_proxy_error [where v = Fixed and cfg = with_key
        and req = sample_request and s = cold_state and k = "''env-key''"
        and w = "settled_env (at_time stub_html 1000)" and m = "''Unexpected token''"
        and st = 200 and t = "''<html>''", THEN conjunct1] k
    by (simp add: stub_html_def sample_parse_def sample_url_eq cold_state_def)
  have d: "serve_v1 Fixed with_key hung_upstream sample_request cold_state
     = (None, \<lparr>cache = Map.empty, calls = [(sample_url, Some ''env-key'')]\<rparr>)"
    using failures_become_proxy_error [where v = Fixed and cfg = with_key
        and req = sample_request and s = cold_state and k = "''env-key''"
        and w = hung_upstream, THEN conjunct1] k
    by (simp add: sample_url_eq cold_state_def)
  have g: "fst (get_v1 Fixed with_key (at_time stub_html 1000) sample_request cold_state)
      = proxy_error ''Unexpected token''"
    using failures_become_proxy_error [where v = Fixed and cfg = with_key
        and req = sample_request and s = cold_state and e = "at_time stub_html 1000",
        THEN conjunct2, THEN conjunct2, THEN conjunct2, THEN conjunct1]
    by (simp add: c proxy_error_def)
  have e: "is_envelope (fst (get_v1 Fixed with_key (at_time stub_html 1000) sample_request cold_state))"
    using failures_become_proxy_error [where v = Fixed and cfg = with_key
        and req = sample_request and s = cold_state and e = "at_time stub_html 1000",
        THEN conjunct2, THEN conjunct2, THEN conjunct2, THEN conjunct2]
    by (simp add: g proxy_error_fields)
  from a b c d e show ?thesis by (intro conjI)
qed

text \<open>
  C6 as stated fails: with a credential and an empty store, an upstream whose \<open>fetch\<close>
  never settles is called once and the inbound request is never answered.
\<close>

theorem pending_upstream_leaves_request_unanswered:
  "fetch_p hung_upstream sample_url (Some ''env-key'') = Pending
   \<and> serve_v1 Original with_key hung_upstream sample_request cold_state
     = (None, \<lparr>cache = Map.empty, calls = [(sample_url, Some ''env-key'')]\<rparr>)"
  by (simp add: serve_v1_def v1_await_def fresh_entry_def js_or_def truthy_def sample_url_eq
      cold_state_def)

section \<open>Freshness\<close>






section \<open>Clearing the store\<close>



section \<open>What is written to the store\<close>

text \<open>
  C3 fails in the variant with \<open>cacheMiddleware\<close>: the middleware replaces \<open>res.json\<close> for
  every response of the route handler, so the \<open>api_error\<close> envelope of an upstream 429 is
  written to an empty store under the request's \<open>originalUrl\<close>, and the same request
  one second later is answered 200 with that envelope, without an upstream call.
\<close>

theorem middleware_stores_error_envelope:
  \<open>cache cold_state (originalUrl sample_request) = None
   \<and> get_v1_mw with_key (at_time stub_429 1000) sample_request cold_state
     = (\<lparr>status = 429,
         body = JObj [(''error'', JStr ''api_error''), (''message'', JStr ''{"retry_after":5}''),
                      (''status'', JNum 429)]\<rparr>,
        \<lparr>cache = [''/v1/events?league=NBA'' \<mapsto>
            \<lparr>data = JObj [(''error'', JStr ''api_error''), (''message'', JStr ''{"retry_after":5}''),
                          (''status'', JNum 429)],
             timestamp = 1005\<rparr>],
         calls = [(sample_url, Some ''env-key'')]\<rparr>)
   \<and> get_v1_mw with_key (at_time stub_ok 2000) sample_request
        (snd (get_v1_mw with_key (at_time stub_429 1000) sample_request cold_state))
     = (\<lparr>status = 200,
         body = JObj [(''error'', JStr ''api_error''), (''message'', JStr ''{"retry_after":5}''),
                      (''status'', JNum 429)]\<rparr>,
        snd (get_v1_mw with_key (at_time stub_429 1000) sample_request cold_state))\<close>
proof -
  have a: \<open>get_v1_mw with_key (at_time stub_429 1000) sample_request cold_state
     = (\<lparr>status = 429,
         body = JObj [(''error'', JStr ''api_error''), (''message'', JStr ''{"retry_after":5}''),
                      (''status'', JNum 429)]\<rparr>,
        \<lparr>cache = [''/v1/events?league=NBA'' \<mapsto>
            \<lparr>data = JObj [(''error'', JStr ''api_error''), (''message'', JStr ''{"retry_after":5}''),
                          (''status'', JNum 429)],
             timestamp = 1005\<rparr>],
         calls = [(sample_url, Some ''env-key'')]\<rparr>)\<close>
    by (simp add: get_v1_mw_def cacheMiddleware_def mw_route_def mw_try_def fresh_entry_def
        response_ok_def api_error_def sample_defs sample_url_eq)
  show ?thesis
    unfolding a
    by (simp add: get_v1_mw_def cacheMiddleware_def fresh_entry_def CACHE_DURATION_def ok_json_def)
qed

section \<open>The cache key\<close>

text \<open>The percent-encoding is injective and produces no delimiter.\<close>

lemma hex_digit_inj:
  assumes "a < 16" "b < 16" "hex_digit a = hex_digit b"
  shows "a = b"
proof -
  have d: "distinct ''0123456789ABCDEF''" by simp
  have l: "length ''0123456789ABCDEF'' = 16" by simp
  show ?thesis
    using assms nth_eq_iff_index_eq [OF d, of a b] unfolding hex_digit_def l by simp
qed

lemma hex_digit_mem: "n < 16 \<Longrightarrow> hex_digit n \<in> set ''0123456789ABCDEF''"
  unfolding hex_digit_def by (rule nth_mem) simp

lemma hex_digit_not_separator: "n < 16 \<Longrightarrow> \<not> separator (hex_digit n)"
  using hex_digit_mem [of n] by (auto simp: separator_def)

lemma unreserved_not_separator: "unreserved c \<Longrightarrow> \<not> separator c"
  by (auto simp: unreserved_def separator_def)

lemma unreserved_not_plus: "\<not> unreserved CHR ''+''" "\<not> unreserved CHR ''%''"
  by (simp_all add: unreserved_def)

lemma enc_byte_no_separator:
  assumes "x \<in> set (enc_byte c)"
  shows "\<not> separator x"
proof (cases "unreserved c")
  case True
  then show ?thesis using assms by (simp add: enc_byte_def unreserved_not_separator)
next
  case False
  have d: "(of_char c :: nat) div 16 < 16"
    using nat_of_char_less_256 [of c] by arith
  have m: "(of_char c :: nat) mod 16 < 16"
    by simp
  show ?thesis
  proof (cases "c = CHR '' ''")
    case True
    then show ?thesis using assms False by (simp add: enc_byte_def separator_def)
  next
    case sp: False
    then have "x = CHR ''%'' \<or> x = hex_digit (of_char c div 16) \<or> x = hex_digit (of_char c mod 16)"
      using assms False by (simp add: enc_byte_def)
    then show ?thesis
      using hex_digit_not_separator [OF d] hex_digit_not_separator [OF m]
      by (auto simp: separator_def)
  qed
qed

lemma form_encode_no_separator: "x \<in> set (form_encode s) \<Longrightarrow> \<not> separator x"
  by (auto simp: form_encode_def dest: enc_byte_no_separator)

lemma char_eq_by_nibbles:
  assumes "(of_char a :: nat) div 16 = of_char b div 16" "(of_char a :: nat) mod 16 = of_char b mod 16"
  shows "a = b"
proof -
  have "(of_char a :: nat) = of_char b"
    using assms by (metis div_mult_mod_eq)
  then show ?thesis by simp
qed

lemma enc_byte_append_inj:
  assumes "enc_byte a @ r = enc_byte b @ r'"
  shows "a = b \<and> r = r'"
proof -
  have da: "(of_char a :: nat) div 16 < 16"
    using nat_of_char_less_256 [of a] by arith
  have db: "(of_char b :: nat) div 16 < 16"
    using nat_of_char_less_256 [of b] by arith
  have ma: "(of_char a :: nat) mod 16 < 16" and mb: "(of_char b :: nat) mod 16 < 16"
    by simp_all
  consider (uu) "unreserved a" "unreserved b"
    | (ux) "unreserved a" "\<not> unreserved b"
    | (xu) "\<not> unreserved a" "unreserved b"
    | (ss) "\<not> unreserved a" "\<not> unreserved b" "a = CHR '' ''" "b = CHR '' ''"
    | (sp) "\<not> unreserved a" "\<not> unreserved b" "a = CHR '' ''" "b \<noteq> CHR '' ''"
    | (ps) "\<not> unreserved a" "\<not> unreserved b" "a \<noteq> CHR '' ''" "b = CHR '' ''"
    | (pp) "\<not> unreserved a" "\<not> unreserved b" "a \<noteq> CHR '' ''" "b \<noteq> CHR '' ''"
    by blast
  then show ?thesis
  proof cases
    case uu
    then show ?thesis using assms by (simp add: enc_byte_def)
  next
    case ux
    then show ?thesis using assms unreserved_not_plus
      by (auto simp: enc_byte_def split: if_splits)
  next
    case xu
    then show ?thesis using assms unreserved_not_plus
      by (auto simp: enc_byte_def split: if_splits)
  next
    case ss
    then show ?thesis using assms by (simp add: enc_byte_def)
  next
    case sp
    then show ?thesis using assms by (simp add: enc_byte_def)
  next
    case ps
    then show ?thesis using assms by (simp add: enc_byte_def)
  next
    case pp
    then have "hex_digit (of_char a div 16) = hex_digit (of_char b div 16)"
      "hex_digit (of_char a mod 16) = hex_digit (of_char b mod 16)" "r = r'"
      using assms by (simp_all add: enc_byte_def)
    then show ?thesis
      using hex_digit_inj [OF da db] hex_digit_inj [OF ma mb] char_eq_by_nibbles [of a b]
      by blast
  qed
qed

lemma enc_byte_nonempty: "enc_byte c \<noteq> []"
  by (simp add: enc_byte_def)

lemma form_encode_simps [simp]:
  "form_encode [] = []" "form_encode (c # s) = enc_byte c @ form_encode s"
  by (simp_all add: form_encode_def)

lemma form_encode_inj: "form_encode s = form_encode t \<Longrightarrow> s = t"
proof (induction s arbitrary: t)
  case Nil
  then show ?case by (cases t) (simp_all add: enc_byte_nonempty)
next
  case (Cons a s)
  show ?case
  proof (cases t)
    case Nil
    then show ?thesis using Cons.prems by (simp add: enc_byte_nonempty)
  next
    case (Cons b t')
    then have "enc_byte a @ form_encode s = enc_byte b @ form_encode t'"
      using Cons.prems by simp
    then have "a = b \<and> form_encode s = form_encode t'"
      by (rule enc_byte_append_inj)
    then show ?thesis using Cons.IH [of t'] Cons by simp
  qed
qed

lemma split_at_separator:
  assumes "c \<notin> set a" "c \<notin> set a'" "a @ c # b = a' @ c # b'"
  shows "a = a' \<and> b = b'"
proof -
  have "takeWhile (\<lambda>x. x \<noteq> c) (a @ c # b) = a" "takeWhile (\<lambda>x. x \<noteq> c) (a' @ c # b') = a'"
    using assms(1,2) by (auto simp: takeWhile_tail)
  then have "a = a'" using assms(3) by simp
  then show ?thesis using assms(3) by simp
qed


lemma enc_pair_no_amp: "CHR ''&'' \<notin> set (enc_pair p)" "CHR ''?'' \<notin> set (enc_pair p)"
  using form_encode_no_separator [of "CHR ''&''"] form_encode_no_separator [of "CHR ''?''"]
  by (auto simp: enc_pair_def separator_def)

lemma enc_pair_nonempty: "enc_pair p \<noteq> []"
  by (simp add: enc_pair_def)

lemma enc_pair_inj:
  assumes "enc_pair p = enc_pair q"
  shows "p = q"
proof -
  have n: "CHR ''='' \<notin> set (form_encode (fst p))" "CHR ''='' \<notin> set (form_encode (fst q))"
    using form_encode_no_separator [of "CHR ''=''"] by (auto simp: separator_def)
  have "form_encode (fst p) @ CHR ''='' # form_encode (snd p)
        = form_encode (fst q) @ CHR ''='' # form_encode (snd q)"
    using assms by (simp add: enc_pair_def)
  then have "form_encode (fst p) = form_encode (fst q) \<and> form_encode (snd p) = form_encode (snd q)"
    by (rule split_at_separator [OF n])
  then show ?thesis
    by (simp add: form_encode_inj prod_eq_iff)
qed

lemma join_amp_empty:
  assumes "\<forall>x \<in> set xs. x \<noteq> []" "join ''&'' xs = []"
  shows "xs = []"
proof (cases xs)
  case Nil
  then show ?thesis .
next
  case (Cons x xs')
  then show ?thesis using assms by (cases xs') simp_all
qed

lemma join_amp_no_query_mark:
  "\<forall>x \<in> set xs. CHR ''?'' \<notin> set x \<Longrightarrow> CHR ''?'' \<notin> set (join ''&'' xs)"
  by (induction "''&''" xs rule: join.induct) auto

lemma join_amp_inj:
  assumes "\<forall>x \<in> set xs. x \<noteq> [] \<and> CHR ''&'' \<notin> set x"
    and "\<forall>y \<in> set ys. y \<noteq> [] \<and> CHR ''&'' \<notin> set y"
    and "join ''&'' xs = join ''&'' ys"
  shows "xs = ys"
  using assms
proof (induction xs arbitrary: ys)
  case Nil
  then show ?case using join_amp_empty [of ys] by simp
next
  case (Cons x xs)
  show ?case
  proof (cases ys)
    case Nil
    then show ?thesis using Cons.prems join_amp_empty [of "x # xs"] by simp
  next
    case ys: (Cons y ys')
    show ?thesis
    proof (cases xs)
      case xn: Nil
      show ?thesis
      proof (cases ys')
        case Nil
        then show ?thesis using Cons.prems ys xn by simp
      next
        case (Cons z zs)
        then have "x = y @ CHR ''&'' # join ''&'' (z # zs)"
          using Cons.prems(3) ys xn by simp
        then have "CHR ''&'' \<in> set x" by simp
        then show ?thesis using Cons.prems(1) by simp
      qed
    next
      case xc: (Cons x' xs')
      show ?thesis
      proof (cases ys')
        case Nil
        then have "y = x @ CHR ''&'' # join ''&'' (x' # xs')"
          using Cons.prems(3) ys xc by simp
        then have "CHR ''&'' \<in> set y" by simp
        then show ?thesis using Cons.prems(2) ys by simp
      next
        case yc: (Cons z zs)
        have "x @ CHR ''&'' # join ''&'' xs = y @ CHR ''&'' # join ''&'' ys'"
          using Cons.prems(3) ys xc yc by simp
        moreover have "CHR ''&'' \<notin> set x" "CHR ''&'' \<notin> set y"
          using Cons.prems(1,2) ys by simp_all
        ultimately have "x = y \<and> join ''&'' xs = join ''&'' ys'"
          using split_at_separator [of "CHR ''&''" x y "join ''&'' xs" "join ''&'' ys'"] by simp
        then show ?thesis
          using Cons.IH [of ys'] Cons.prems(1,2) ys by simp
      qed
    qed
  qed
qed

lemma toString_empty: "URLSearchParams_toString q = [] \<Longrightarrow> q = []"
  using join_amp_empty [of "map (\<lambda>kv. enc_pair (fst kv, to_string (snd kv))) q"]
  by (simp add: URLSearchParams_toString_def enc_pair_nonempty)

lemma toString_no_query_mark: "CHR ''?'' \<notin> set (URLSearchParams_toString q)"
  unfolding URLSearchParams_toString_def
  by (rule join_amp_no_query_mark) (simp add: enc_pair_no_amp)

lemma plain_pair_inj:
  assumes "is_QStr (snd a)" "is_QStr (snd b)"
    and "enc_pair (fst a, to_string (snd a)) = enc_pair (fst b, to_string (snd b))"
  shows "a = b"
proof -
  obtain s t where st: "snd a = QStr s" "snd b = QStr t"
    using assms(1,2) by (cases "snd a"; cases "snd b") simp_all
  have "(fst a, to_string (snd a)) = (fst b, to_string (snd b))"
    using assms(3) by (rule enc_pair_inj)
  then show ?thesis using st by (simp add: prod_eq_iff)
qed

lemma toString_inj:
  assumes "plain_query q" "plain_query q'"
    and "URLSearchParams_toString q = URLSearchParams_toString q'"
  shows "q = q'"
proof -
  let ?f = "\<lambda>kv. enc_pair (fst kv, to_string (snd kv))"
  have "map ?f q = map ?f q'"
    using assms(3) unfolding URLSearchParams_toString_def
    by (intro join_amp_inj) (simp_all add: enc_pair_nonempty enc_pair_no_amp)
  moreover have "inj_on ?f (set q \<union> set q')"
  proof (rule inj_onI)
    fix a b
    assume "a \<in> set q \<union> set q'" "b \<in> set q \<union> set q'" "?f a = ?f b"
    moreover from this have "is_QStr (snd a)" "is_QStr (snd b)"
      using assms(1,2) by (auto simp: plain_query_def list_all_iff)
    ultimately show "a = b"
      using plain_pair_inj [of a b] by simp
  qed
  ultimately show ?thesis
    by (simp add: inj_on_map_eq_map)
qed

lemma upstream_url_inj:
  assumes "CHR ''?'' \<notin> set (path ra)" "CHR ''?'' \<notin> set (path rb)"
    and "plain_query (query ra)" "plain_query (query rb)"
    and "upstream_url ra = upstream_url rb"
  shows "path ra = path rb \<and> query ra = query rb"
proof -
  let ?qa = "URLSearchParams_toString (query ra)" and ?qb = "URLSearchParams_toString (query rb)"
  show ?thesis
  proof (cases "?qa = []")
    case qa: True
    show ?thesis
    proof (cases "?qb = []")
      case True
      then have "path ra = path rb"
        using assms(5) qa by (simp add: upstream_url_def)
      moreover have "query ra = []" "query rb = []"
        using qa True by (simp_all add: toString_empty)
      ultimately show ?thesis by simp
    next
      case False
      then have "path ra = path rb @ CHR ''?'' # ?qb"
        using assms(5) qa by (simp add: upstream_url_def)
      then have "CHR ''?'' \<in> set (path ra)" by simp
      then show ?thesis using assms(1) by simp
    qed
  next
    case qa: False
    show ?thesis
    proof (cases "?qb = []")
      case True
      then have "path rb = path ra @ CHR ''?'' # ?qa"
        using assms(5) qa by (simp add: upstream_url_def)
      then have "CHR ''?'' \<in> set (path rb)" by simp
      then show ?thesis using assms(2) by simp
    next
      case False
      then have "path ra @ CHR ''?'' # ?qa = path rb @ CHR ''?'' # ?qb"
        using assms(5) qa by (simp add: upstream_url_def)
      then have "path ra = path rb \<and> ?qa = ?qb"
        by (rule split_at_separator [OF assms(1,2)])
      then show ?thesis
        using toString_inj [OF assms(3,4)] by simp
    qed
  qed
qed

lemma get_v1_reads_one_key:
  assumes "cache s (upstream_url req) = cache s' (upstream_url req)"
  shows "fst (get_v1 v cfg e req s) = fst (get_v1 v cfg e req s')"
proof (cases "fresh_entry CACHE_DURATION (now_check e) (cache s (upstream_url req))")
  case None
  then have "fresh_entry CACHE_DURATION (now_check e) (cache s' (upstream_url req)) = None"
    using assms by simp
  then show ?thesis
    using None by (simp add: get_v1_miss split: fetch_result.splits sum.splits)
next
  case (Some c)
  then have "fresh_entry CACHE_DURATION (now_check e) (cache s' (upstream_url req)) = Some c"
    using assms by simp
  then show ?thesis
    using Some by (simp add: fresh_entry_Some_iff get_v1_hit)
qed

lemma get_v1_mw_cache_other:
  "k \<noteq> originalUrl req \<Longrightarrow> cache (snd (get_v1_mw cfg e req s)) k = cache s k"
  by (auto simp: get_v1_mw_def cacheMiddleware_def mw_route_def mw_try_def Let_def
      split: option.splits prod.splits fetch_result.splits sum.splits if_splits)

lemma comma_url:
  "upstream_url comma_request = ''https://api.oddsengine.dev/v1/odds?book=a%2Cb''"
  by (simp add: upstream_url_def comma_request_def URLSearchParams_toString_def enc_pair_def
      form_encode_def enc_byte_def unreserved_def ODDSENGINE_BASE_URL_def hex_digit_def)

lemma repeated_url:
  "upstream_url repeated_request = ''https://api.oddsengine.dev/v1/odds?book=a%2Cb''"
  by (simp add: upstream_url_def repeated_request_def URLSearchParams_toString_def enc_pair_def
      form_encode_def enc_byte_def unreserved_def ODDSENGINE_BASE_URL_def hex_digit_def)

text \<open>
  C8, as the code has it. For two requests whose paths hold no \<open>?\<close> (as every
  \<open>req.path\<close> does) and whose query values are all plain strings, the derived upstream
  URLs are equal exactly when the paths and the queries are equal. The handler of
  \<open>railway-proxy-server.js\<close> and \<open>railway-proxy-server-fixed.js\<close> uses that URL as the
  key: its response depends on the store only through the entry under the URL, and it
  writes under no other key. The middleware variant writes under \<open>req.originalUrl\<close>
  and no other key.
\<close>

theorem cache_key_injective:
  "(CHR ''?'' \<notin> set (path ra) \<and> CHR ''?'' \<notin> set (path rb)
      \<and> plain_query (query ra) \<and> plain_query (query rb) \<longrightarrow>
      (upstream_url ra = upstream_url rb \<longleftrightarrow> path ra = path rb \<and> query ra = query rb))
   \<and> (cache s (upstream_url req) = cache s' (upstream_url req) \<longrightarrow>
        fst (get_v1 v cfg e req s) = fst (get_v1 v cfg e req s'))
   \<and> (k \<noteq> upstream_url req \<longrightarrow> cache (snd (get_v1 v cfg e req s)) k = cache s k)
   \<and> (k \<noteq> originalUrl req \<longrightarrow> cache (snd (get_v1_mw cfg e req s)) k = cache s k)"
proof (intro conjI impI)
  assume a: "CHR ''?'' \<notin> set (path ra) \<and> CHR ''?'' \<notin> set (path rb)
      \<and> plain_query (query ra) \<and> plain_query (query rb)"
  show "upstream_url ra = upstream_url rb \<longleftrightarrow> path ra = path rb \<and> query ra = query rb"
  proof
    assume u: "upstream_url ra = upstream_url rb"
    show "path ra = path rb \<and> query ra = query rb"
      by (rule upstream_url_inj [OF _ _ _ _ u]) (use a in simp_all)
  next
    assume "path ra = path rb \<and> query ra = query rb"
    then show "upstream_url ra = upstream_url rb"
      by (simp add: upstream_url_def)
  qed
next
  assume "cache s (upstream_url req) = cache s' (upstream_url req)"
  then show "fst (get_v1 v cfg e req s) = fst (get_v1 v cfg e req s')"
    by (rule get_v1_reads_one_key)
next
  assume "k \<noteq> upstream_url req"
  then show "cache (snd (get_v1 v cfg e req s)) k = cache s k"
    by (rule get_v1_cache_other)
next
  assume "k \<noteq> originalUrl req"
  then show "cache (snd (get_v1_mw cfg e req s)) k = cache s k"
    by (rule get_v1_mw_cache_other)
qed

theorem cache_key_injective_witness:
  "upstream_url sample_request \<noteq> upstream_url comma_request
   \<and> upstream_url comma_request = upstream_url (comma_request\<lparr>x_api_key := Some ''secret''\<rparr>)
   \<and> fst (get_v1 Original no_key (at_time stub_ok 2000) sample_request
            (warm_state\<lparr>calls := [(sample_url, Some ''k'')]\<rparr>))
       = fst (get_v1 Original no_key (at_time stub_ok 2000) sample_request warm_state)
   \<and> cache (snd (get_v1 Original with_key (at_time stub_ok 1000) sample_request cold_state))
       ''other'' = None
   \<and> cache (snd (get_v1_mw with_key (at_time stub_ok 1000) sample_request cold_state))
       sample_url = None"
proof -
  have p: "CHR ''?'' \<notin> set (path sample_request)" "CHR ''?'' \<notin> set (path comma_request)"
    "plain_query (query sample_request)" "plain_query (query comma_request)"
    by (simp_all add: sample_request_def comma_request_def plain_query_def)
  have a: "upstream_url sample_request \<noteq> upstream_url comma_request"
    using cache_key_injective [where ra = sample_request and rb = comma_request, THEN conjunct1] p
    by (simp add: sample_request_def comma_request_def)
  have b: "upstream_url comma_request = upstream_url (comma_request\<lparr>x_api_key := Some ''secret''\<rparr>)"
    using cache_key_injective [where ra = comma_request
        and rb = "comma_request\<lparr>x_api_key := Some ''secret''\<rparr>", THEN conjunct1] p
    by simp
  have c: "fst (get_v1 Original no_key (at_time stub_ok 2000) sample_request
            (warm_state\<lparr>calls := [(sample_url, Some ''k'')]\<rparr>))
       = fst (get_v1 Original no_key (at_time stub_ok 2000) sample_request warm_state)"
    using cache_key_injective [where req = sample_request and s' = warm_state
        and s = "warm_state\<lparr>calls := [(sample_url, Some ''k'')]\<rparr>" and v = Original
        and cfg = no_key and e = "at_time stub_ok 2000", THEN conjunct2, THEN conjunct1]
    by simp
  have d: "cache (snd (get_v1 Original with_key (at_time stub_ok 1000) sample_request cold_state))
       ''other'' = None"
    using cache_key_injective [where req = sample_request and s = cold_state
        and k = "''other''" and v = Original and cfg = with_key and e = "at_time stub_ok 1000",
        THEN conjunct2, THEN conjunct2, THEN conjunct1]
    by (simp add: sample_url_eq sample_url_def)
  have e: "cache (snd (get_v1_mw with_key (at_time stub_ok 1000) sample_request cold_state))
       sample_url = None"
    using cache_key_injective [where req = sample_request and s = cold_state
        and k = sample_url and cfg = with_key and e = "at_time stub_ok 1000",
        THEN conjunct2, THEN conjunct2, THEN conjunct2]
    by (simp add: sample_url_def)
  from a b c d e show ?thesis by (intro conjI)
qed

text \<open>
  C8 as stated fails: a repeated parameter reaches the handler as an array, which
  \<open>URLSearchParams\<close> turns into its elements joined by commas, so
  \<open>/v1/odds?book=a&book=b\<close> and \<open>/v1/odds?book=a%2Cb\<close> have different query
  parameters and the same upstream URL, hence the same cache entry.
\<close>

theorem repeated_parameter_collides:
  "path repeated_request = path comma_request
   \<and> query repeated_request \<noteq> query comma_request
   \<and> upstream_url repeated_request = upstream_url comma_request"
  by (simp add: repeated_url comma_url) (simp add: repeated_request_def comma_request_def)

end
